theory Spec2Isabelle
  imports Main
begin

section \<open>Values, objects and the heap\<close>

text \<open>
  Constructor.js works on JavaScript objects: functions are objects, every object has a
  list of own properties and a prototype link, and the two functions of the file
  (\<open>Constructor\<close> and \<open>Constructor.extend\<close>) read and write such objects
  in place. The model is an explicit heap: a store from addresses to objects and the
  next free address. A value is a primitive or a reference into the store.

  Numbers are modelled as integers (the only use the source makes of a number is to
  print it in an error message). An own property carries its value and whether it is
  enumerable; properties are kept in insertion order, which is the order \<open>for-in\<close>
  visits them. Accessor properties, read-only properties and proxies are not modelled:
  every property is a writable data property.
\<close>

type_synonym addr = nat

datatype val = Undefined | Null | Bool bool | Num int | Str string | Ref addr

text \<open>
  What a callable object runs when it is called: the empty body of
  \<open>function () {}\<close> and \<open>function F() {}\<close>, the body of the function that
  \<open>extend\<close> installs as \<open>parent\<close> (lines 111-127 of Constructor.js; it
  closes over nothing of \<open>extend\<close>), or a function of the caller, known by a number.
\<close>

datatype code = Empty | Parent | User nat

record obj =
  props :: "(string \<times> val \<times> bool) list"
  proto :: val
  code :: "code option"

record heap =
  store :: "addr \<Rightarrow> obj"
  next_addr :: addr

text \<open>
  The errors of the source: \<open>throw new ReferenceError(msg)\<close> and
  \<open>throw new TypeError(msg)\<close> with the message of the source;
  \<open>RuntimeTypeError\<close> is a TypeError thrown by the language itself (a property
  of \<open>undefined\<close> or \<open>null\<close>, calling what is not a function), whose
  message is the engine's. \<open>NoReturn\<close> stands for a walk along a cyclic prototype
  chain and \<open>OutOfFuel\<close> for a call nesting deeper than the fuel given.
  A result carries the heap as it is when the function returns or throws.
\<close>

datatype error = ReferenceError string | TypeError string | RuntimeTypeError | NoReturn | OutOfFuel

type_synonym result = "(error \<times> heap) + (val \<times> heap)"

text \<open>
  The two intrinsic objects the source relies on: \<open>Object.prototype\<close>, the
  prototype of an object made by \<open>new\<close> when the constructor's \<open>prototype\<close>
  is not an object, and \<open>Function.prototype\<close>, the prototype of every function.
\<close>

definition ObjectPrototype :: addr where
  "ObjectPrototype = 0"

definition FunctionPrototype :: addr where
  "FunctionPrototype = 1"

definition alloc :: "obj \<Rightarrow> heap \<Rightarrow> addr \<times> heap" where
  "alloc ob h = (next_addr h, h\<lparr>store := (store h)(next_addr h := ob), next_addr := Suc (next_addr h)\<rparr>)"

text \<open>
  Evaluating a function expression or declaration creates the function object and its
  default \<open>prototype\<close> object, whose \<open>constructor\<close> points back; neither
  property is enumerable.
\<close>

definition alloc_function :: "code \<Rightarrow> heap \<Rightarrow> addr \<times> heap" where
  "alloc_function c h =
     (let (f, h1) = alloc \<lparr>props = [(''prototype'', Ref (Suc (next_addr h)), False)],
                           proto = Ref FunctionPrototype, code = Some c\<rparr> h;
          (p, h2) = alloc \<lparr>props = [(''constructor'', Ref f, False)],
                           proto = Ref ObjectPrototype, code = None\<rparr> h1
      in (f, h2))"

text \<open>\<open>new F\<close> for a constructor whose \<open>prototype\<close> property holds \<open>pv\<close>:
  the fresh receiver.\<close>

definition new_object :: "val \<Rightarrow> heap \<Rightarrow> addr \<times> heap" where
  "new_object pv h =
     alloc \<lparr>props = [], proto = (case pv of Ref t \<Rightarrow> Ref t | _ \<Rightarrow> Ref ObjectPrototype),
            code = None\<rparr> h"

subsection \<open>Reading and writing properties\<close>

definition own_prop :: "heap \<Rightarrow> addr \<Rightarrow> string \<Rightarrow> (val \<times> bool) option" where
  "own_prop h a k = map_of (props (store h a)) k"

text \<open>\<open>o.hasOwnProperty(k)\<close>, \<open>hasOwnProperty\<close> being the built-in of
  \<open>Object.prototype\<close>.\<close>

definition hasOwnProperty :: "heap \<Rightarrow> val \<Rightarrow> string \<Rightarrow> bool" where
  "hasOwnProperty h v k = (case v of Ref a \<Rightarrow> own_prop h a k \<noteq> None | _ \<Rightarrow> False)"

text \<open>
  The property read \<open>o[k]\<close> on an object: the own property, or else the walk up the
  prototype chain. JavaScript keeps prototype chains acyclic; on a store with a cyclic
  chain the walk does not return, which is the value \<open>None\<close>.
\<close>

partial_function (option) get_chain :: "heap \<Rightarrow> addr \<Rightarrow> string \<Rightarrow> val option" where
  "get_chain h a k =
     (case map_of (props (store h a)) k of
        Some (v, e) \<Rightarrow> Some v
      | None \<Rightarrow> (case proto (store h a) of Ref b \<Rightarrow> get_chain h b k | _ \<Rightarrow> Some Undefined))"

declare get_chain.simps [code]

text \<open>
  The property read \<open>v.k\<close> on any value. On \<open>undefined\<close> and \<open>null\<close> it
  throws. On a primitive it goes to the wrapper prototype; the source reads only
  \<open>prototype\<close> and \<open>parent\<close> from a value that can be a primitive, and the
  wrapper prototypes define neither.
\<close>

definition get_prop :: "heap \<Rightarrow> val \<Rightarrow> string \<Rightarrow> error + val" where
  "get_prop h v k =
     (case v of
        Undefined \<Rightarrow> Inl RuntimeTypeError
      | Null \<Rightarrow> Inl RuntimeTypeError
      | Ref a \<Rightarrow> (case get_chain h a k of None \<Rightarrow> Inl NoReturn | Some w \<Rightarrow> Inr w)
      | _ \<Rightarrow> Inr Undefined)"

text \<open>The assignment \<open>o[k] = v\<close> on an object: an existing own property keeps its
  place and its enumerability, a new one is added last and is enumerable.\<close>

fun put_prop :: "(string \<times> val \<times> bool) list \<Rightarrow> string \<Rightarrow> val \<Rightarrow> (string \<times> val \<times> bool) list" where
  "put_prop [] k v = [(k, v, True)]"
| "put_prop ((k', v', e) # ps) k v =
     (if k' = k then (k', v, e) # ps else (k', v', e) # put_prop ps k v)"

definition put :: "heap \<Rightarrow> addr \<Rightarrow> string \<Rightarrow> val \<Rightarrow> heap" where
  "put h a k v = h\<lparr>store := (store h)(a := (store h a)\<lparr>props := put_prop (props (store h a)) k v\<rparr>)\<rparr>"

text \<open>
  The assignment \<open>t.k = v\<close> on any value: it throws on \<open>undefined\<close> and
  \<open>null\<close>; on a primitive it is dropped (the file is not in strict mode).
\<close>

definition set_prop :: "heap \<Rightarrow> val \<Rightarrow> string \<Rightarrow> val \<Rightarrow> error + heap" where
  "set_prop h t k v =
     (case t of
        Undefined \<Rightarrow> Inl RuntimeTypeError
      | Null \<Rightarrow> Inl RuntimeTypeError
      | Ref a \<Rightarrow> Inr (put h a k v)
      | _ \<Rightarrow> Inr h)"

text \<open>The loop
  \<^verbatim>\<open>for (var k in from) { if (from.hasOwnProperty(k)) { to[k] = from[k]; } }\<close>
  of lines 98-102 and 118-122. \<open>for-in\<close> visits the enumerable properties of the object
  and of its chain; the test keeps the own ones, so the body runs for the own enumerable
  properties, each read from the object as it is at that moment.\<close>

definition own_enumerable_keys :: "heap \<Rightarrow> addr \<Rightarrow> string list" where
  "own_enumerable_keys h a = map fst (filter (\<lambda>(k, v, e). e) (props (store h a)))"

fun copy_keys :: "heap \<Rightarrow> addr \<Rightarrow> addr \<Rightarrow> string list \<Rightarrow> heap" where
  "copy_keys h from to [] = h"
| "copy_keys h from to (k # ks) =
     copy_keys (case own_prop h from k of Some (v, e) \<Rightarrow> put h to k v | None \<Rightarrow> h) from to ks"

definition copy_own :: "heap \<Rightarrow> addr \<Rightarrow> addr \<Rightarrow> heap" where
  "copy_own h from to = copy_keys h from to (own_enumerable_keys h from)"

subsection \<open>typeof and string conversion\<close>

definition typeof :: "heap \<Rightarrow> val \<Rightarrow> string" where
  "typeof h v =
     (case v of
        Undefined \<Rightarrow> ''undefined''
      | Null \<Rightarrow> ''object''
      | Bool b \<Rightarrow> ''boolean''
      | Num n \<Rightarrow> ''number''
      | Str s \<Rightarrow> ''string''
      | Ref a \<Rightarrow> (if code (store h a) \<noteq> None then ''function'' else ''object''))"

fun show_nat :: "nat \<Rightarrow> string" where
  "show_nat n =
     (if n < 10 then [char_of (48 + n)] else show_nat (n div 10) @ [char_of (48 + n mod 10)])"

definition show_int :: "int \<Rightarrow> string" where
  "show_int i = (if i < 0 then CHR ''-'' # show_nat (nat (- i)) else show_nat (nat i))"

text \<open>The conversion of \<open>"..." + source\<close>; the source reaches it with a boolean, a
  number or a string only.\<close>

definition to_string :: "val \<Rightarrow> string" where
  "to_string v =
     (case v of
        Undefined \<Rightarrow> ''undefined''
      | Null \<Rightarrow> ''null''
      | Bool b \<Rightarrow> (if b then ''true'' else ''false'')
      | Num n \<Rightarrow> show_int n
      | Str s \<Rightarrow> s
      | Ref a \<Rightarrow> ''[object Object]'')"

section \<open>Constructor (lines 30-54)\<close>

definition Constructor_error :: string where
  "Constructor_error =
     ''Constructor(): invalid 'source' argument, must be a function or prototype, but was ''"

text \<open>
  \<open>ctr\<close> is the own \<open>constructor\<close> of the specification or a new empty function;
  the two assignments of lines 50-51 follow, each with what the language does when the
  value assigned to is not an object.
\<close>

definition Constructor :: "val \<Rightarrow> heap \<Rightarrow> result" where
  "Constructor source h =
     (let type = typeof h source;
          error = Constructor_error
      in
      if ''function'' = type then Inr (source, h)
      else if ''undefined'' = type then Inl (ReferenceError (error @ ''undefined''), h)
      else if ''object'' \<noteq> type \<or> source = Null then
        Inl (TypeError (error @ (if ''object'' \<noteq> type
                                 then type @ '' ['' @ to_string source @ '']''
                                 else ''null'')), h)
      else
        (case (if hasOwnProperty h source ''constructor''
               then (case get_prop h source ''constructor'' of
                       Inl e \<Rightarrow> Inl (e, h) | Inr c \<Rightarrow> Inr (c, h))
               else (let (f, h') = alloc_function Empty h in Inr (Ref f, h'))) of
           Inl x \<Rightarrow> Inl x
         | Inr (ctr, h1) \<Rightarrow>
        (case set_prop h1 ctr ''prototype'' source of
           Inl e \<Rightarrow> Inl (e, h1)
         | Inr h2 \<Rightarrow>
        (case get_prop h2 ctr ''prototype'' of
           Inl e \<Rightarrow> Inl (e, h2)
         | Inr pr \<Rightarrow>
        (case set_prop h2 pr ''constructor'' ctr of
           Inl e \<Rightarrow> Inl (e, h2)
         | Inr h3 \<Rightarrow> Inr (ctr, h3))))))"

section \<open>Constructor.extend (lines 64-132)\<close>

definition extend_error :: string where
  "extend_error = ''Constructor.extend(): ''"

text \<open>
  The conditional of lines 78 and 79: a function passes through, anything else goes
  through \<open>new Constructor(...)\<close>. \<open>Constructor\<close> returns an object whenever it
  returns, so \<open>new\<close> yields that object; the receiver \<open>new\<close> made for the call is
  never touched and is left out.
\<close>

definition pass_through :: "string \<Rightarrow> val \<Rightarrow> heap \<Rightarrow> result" where
  "pass_through type v h = (if type \<noteq> ''function'' then Constructor v h else Inr (v, h))"

text \<open>
  \<open>extend\<close> takes the list of its actual arguments. The declaration
  \<open>function F() {}\<close> is hoisted, so \<open>F\<close> exists from the entry of the function.
\<close>

definition extend :: "val list \<Rightarrow> heap \<Rightarrow> result" where
  "extend arguments h0 =
     (let (F, h) = alloc_function Empty h0;
          error = extend_error
      in
      if length arguments < 2 then
        Inl (TypeError (error @ ''requires 2 arguments, source and target.''), h)
      else
        (let source = arguments ! 0;
             target = arguments ! 1;
             sourceType = typeof h source;
             targetType = typeof h target
         in
         case pass_through sourceType source h of
           Inl x \<Rightarrow> Inl x
         | Inr (newSource, h1) \<Rightarrow>
        (case pass_through targetType target h1 of
           Inl x \<Rightarrow> Inl x
         | Inr (newConstructor, h2) \<Rightarrow>
        (case set_prop h2 newConstructor ''parent'' (Ref F) of
           Inl e \<Rightarrow> Inl (e, h2)
         | Inr h3 \<Rightarrow>
        (case get_prop h3 newSource ''prototype'' of
           Inl e \<Rightarrow> Inl (e, h3)
         | Inr sp \<Rightarrow>
        (let h4 = put h3 F ''prototype'' sp;
             (newPrototype, h5) = new_object sp h4
         in
         case (if targetType = ''object''
               then (case get_prop h5 newConstructor ''prototype'' of
                       Inl e \<Rightarrow> Inl (e, h5)
                     | Inr (Ref pr) \<Rightarrow> Inr (copy_own h5 pr newPrototype)
                     | Inr _ \<Rightarrow> Inr h5)
               else Inr h5) of
           Inl x \<Rightarrow> Inl x
         | Inr h6 \<Rightarrow>
        (let h7 = put h6 newPrototype ''constructor'' newConstructor;
             (pf, h8) = alloc_function Parent h7;
             h9 = put h8 newPrototype ''parent'' (Ref pf)
         in
         case set_prop h9 newConstructor ''prototype'' (Ref newPrototype) of
           Inl e \<Rightarrow> Inl (e, h9)
         | Inr h10 \<Rightarrow> Inr (newConstructor, h10))))))))"

section \<open>The parent initializer (lines 111-127)\<close>

text \<open>
  The function installed as \<open>parent\<close> calls two functions it finds in the heap:
  \<open>new parent\<close> and \<open>p.constructor.apply(p, arguments)\<close>. What a call does is
  a parameter \<open>run\<close> (callee, receiver, arguments, heap), so that \<open>parent\<close> is
  written once and the interpreter \<open>call\<close> below closes the recursion.
\<close>

type_synonym invoke = "val \<Rightarrow> val \<Rightarrow> val list \<Rightarrow> heap \<Rightarrow> result"

text \<open>\<open>new f(args)\<close>: a fresh receiver whose prototype is \<open>f.prototype\<close>, the call of
  \<open>f\<close> on it, and the receiver unless the call returned an object.\<close>

definition new :: "invoke \<Rightarrow> val \<Rightarrow> val list \<Rightarrow> heap \<Rightarrow> (error \<times> heap) + (addr \<times> heap)" where
  "new run f args h =
     (case f of
        Ref a \<Rightarrow>
          (if code (store h a) = None then Inl (RuntimeTypeError, h)
           else (case get_prop h f ''prototype'' of
                   Inl e \<Rightarrow> Inl (e, h)
                 | Inr pv \<Rightarrow>
                     (let (ob, h1) = new_object pv h in
                      case run f (Ref ob) args h1 of
                        Inl x \<Rightarrow> Inl x
                      | Inr (r, h2) \<Rightarrow> Inr (case r of Ref b \<Rightarrow> b | _ \<Rightarrow> ob, h2))))
      | _ \<Rightarrow> Inl (RuntimeTypeError, h))"

text \<open>\<open>f.apply(this, args)\<close>, \<open>apply\<close> being the built-in of
  \<open>Function.prototype\<close>: a value that is not a function has no \<open>apply\<close> to call.\<close>

definition apply_fn :: "invoke \<Rightarrow> val \<Rightarrow> val \<Rightarrow> val list \<Rightarrow> heap \<Rightarrow> result" where
  "apply_fn run f this args h =
     (case f of
        Ref a \<Rightarrow> (if code (store h a) = None then Inl (RuntimeTypeError, h) else run f this args h)
      | _ \<Rightarrow> Inl (RuntimeTypeError, h))"

text \<open>The receiver of a function that is not in strict mode is always an object, so
  \<open>this\<close> is an address.\<close>

definition parent :: "invoke \<Rightarrow> addr \<Rightarrow> val list \<Rightarrow> heap \<Rightarrow> result" where
  "parent run this arguments h =
     (case get_prop h (Ref this) ''constructor'' of
        Inl e \<Rightarrow> Inl (e, h)
      | Inr ctor \<Rightarrow>
     (case get_prop h ctor ''parent'' of
        Inl e \<Rightarrow> Inl (e, h)
      | Inr parent' \<Rightarrow>
     (case new run parent' [] h of
        Inl x \<Rightarrow> Inl x
      | Inr (p, h1) \<Rightarrow>
     (case get_prop h1 (Ref p) ''constructor'' of
        Inl e \<Rightarrow> Inl (e, h1)
      | Inr pc \<Rightarrow>
     (case apply_fn run pc (Ref p) arguments h1 of
        Inl x \<Rightarrow> Inl x
      | Inr (r, h2) \<Rightarrow>
     (let h3 = copy_own h2 p this;
          h4 = put h3 this ''parent'' (Ref p)
      in Inr (Ref this, h4)))))))"

section \<open>Calling functions\<close>

text \<open>
  A function of the caller is given by its meaning: from the interpreter for the calls it
  makes, its receiver, its arguments and the heap, to a result. \<open>call\<close> runs the body
  of a callable object; its fuel bounds the nesting of calls.
\<close>

type_synonym user_env = "nat \<Rightarrow> invoke \<Rightarrow> val \<Rightarrow> val list \<Rightarrow> heap \<Rightarrow> result"

primrec call :: "user_env \<Rightarrow> nat \<Rightarrow> val \<Rightarrow> val \<Rightarrow> val list \<Rightarrow> heap \<Rightarrow> result" where
  "call U 0 f this args h = Inl (OutOfFuel, h)"
| "call U (Suc n) f this args h =
     (case f of
        Ref a \<Rightarrow>
          (case code (store h a) of
             None \<Rightarrow> Inl (RuntimeTypeError, h)
           | Some Empty \<Rightarrow> Inr (Undefined, h)
           | Some Parent \<Rightarrow>
               (case this of Ref t \<Rightarrow> parent (call U n) t args h | _ \<Rightarrow> Inl (RuntimeTypeError, h))
           | Some (User i) \<Rightarrow> U i (call U n) this args h)
      | _ \<Rightarrow> Inl (RuntimeTypeError, h))"

subsection \<open>Observations\<close>

text \<open>The value of an own property, and the value or error of a result without its heap.\<close>

definition own_value :: "heap \<Rightarrow> addr \<Rightarrow> string \<Rightarrow> val option" where
  "own_value h a k = map_option fst (own_prop h a k)"

definition outcome :: "result \<Rightarrow> error + val" where
  "outcome r = map_sum fst fst r"

subsection \<open>Heaps without dangling references\<close>

text \<open>
  A JavaScript heap has no dangling reference: every reference held by an object in use
  (its prototype link, the values of its properties) is to an object in use, and so is
  every value a program passes. \<open>alloc\<close> relies on it: the address it takes is new
  only if nothing refers to it yet.
\<close>

definition valid :: "heap \<Rightarrow> val \<Rightarrow> bool" where
  "valid h v = (case v of Ref a \<Rightarrow> a < next_addr h | _ \<Rightarrow> True)"

definition wf_obj :: "heap \<Rightarrow> obj \<Rightarrow> bool" where
  "wf_obj h ob = (valid h (proto ob) \<and> list_all (\<lambda>(k, v, e). valid h v) (props ob))"

definition wf_heap :: "heap \<Rightarrow> bool" where
  "wf_heap h = list_all (\<lambda>a. wf_obj h (store h a)) [0..<next_addr h]"

section \<open>Example heaps\<close>

text \<open>
  The heap of a program that has run
  \<^verbatim>\<open>
  function Source(name) { this.kind = 'source'; this.name = name; }
  var spec = { constructor: function (name) { this.early = true; this.parent(name); },
               kind: 'target' };
  var plain = { a: 1 };
  \<close>
  Addresses 0 and 1 are the intrinsic prototypes; 2 and 3 are \<open>Source\<close> and its
  prototype; 4 is \<open>spec\<close>, 5 and 6 its constructor function and that function's default
  prototype; 7 is \<open>plain\<close>.
\<close>

definition empty_obj :: obj where
  "empty_obj = \<lparr>props = [], proto = Null, code = None\<rparr>"

definition example_heap :: heap where
  "example_heap =
     \<lparr>store = (\<lambda>a. empty_obj)
        (0 := \<lparr>props = [], proto = Null, code = None\<rparr>,
         1 := \<lparr>props = [], proto = Ref 0, code = Some Empty\<rparr>,
         2 := \<lparr>props = [(''prototype'', Ref 3, False)], proto = Ref 1, code = Some (User 0)\<rparr>,
         3 := \<lparr>props = [(''constructor'', Ref 2, False)], proto = Ref 0, code = None\<rparr>,
         4 := \<lparr>props = [(''constructor'', Ref 5, True), (''kind'', Str ''target'', True)],
               proto = Ref 0, code = None\<rparr>,
         5 := \<lparr>props = [(''prototype'', Ref 6, False)], proto = Ref 1, code = Some (User 1)\<rparr>,
         6 := \<lparr>props = [(''constructor'', Ref 5, False)], proto = Ref 0, code = None\<rparr>,
         7 := \<lparr>props = [(''a'', Num 1, True)], proto = Ref 0, code = None\<rparr>),
      next_addr = 8\<rparr>"

text \<open>The bodies of the functions of the examples: 0 is \<open>Source\<close>, 1 is the
  constructor of \<open>spec\<close> (\<open>this.parent(name)\<close> reads \<open>parent\<close> through the
  chain and calls it on the receiver), and 2 is
  \<^verbatim>\<open>function Sub() { this.sub = true; }\<close>.\<close>

definition example_env :: user_env where
  "example_env i run this args h =
     (case this of
        Ref t \<Rightarrow>
          (if i = 0 then
             Inr (Undefined, put (put h t ''kind'' (Str ''source'')) t ''name'' (case args of [] \<Rightarrow> Undefined | x # xs \<Rightarrow> x))
           else if i = 1 then
             (let h1 = put h t ''early'' (Bool True) in
              case get_prop h1 this ''parent'' of
                Inl e \<Rightarrow> Inl (e, h1)
              | Inr f \<Rightarrow>
                  (case run f this [case args of [] \<Rightarrow> Undefined | x # xs \<Rightarrow> x] h1 of
                     Inl x \<Rightarrow> Inl x
                   | Inr (r, h2) \<Rightarrow> Inr (Undefined, h2)))
           else if i = 2 then Inr (Undefined, put h t ''sub'' (Bool True))
           else Inr (Undefined, h))
      | _ \<Rightarrow> Inl (RuntimeTypeError, h))"



text \<open>
  The heap after \<open>Target = Constructor.extend(Source, spec)\<close> on the example heap, and
  the heap at the moment \<open>new Target('bob')\<close> has made the instance (address 13), has
  run \<open>this.early = true\<close> and is about to call \<open>this.parent(name)\<close>.
\<close>

definition extended_heap :: heap where
  "extended_heap =
     (case extend [Ref 2, Ref 4] example_heap of Inr (K, h') \<Rightarrow> h' | Inl (e, h') \<Rightarrow> h')"

definition instance_heap :: heap where
  "instance_heap = put (snd (new_object (Ref 10) extended_heap)) 13 ''early'' (Bool True)"

text \<open>
  The example heap with \<open>plain\<close> replaced by a function whose prototype object has
  been replaced and has no \<open>constructor\<close> of its own:
  \<^verbatim>\<open>
  function Sub() { this.sub = true; }
  Sub.prototype = Object.create(Source.prototype);
  \<close>
  (addresses 7 and 8), and the heap at the same moment of \<open>new Target('bob')\<close> after
  \<open>Target = Constructor.extend(Sub, spec)\<close>; the instance is at address 14.
\<close>

definition inherit_heap :: heap where
  "inherit_heap =
     example_heap\<lparr>store := (store example_heap)
        (7 := \<lparr>props = [(''prototype'', Ref 8, False)], proto = Ref 1, code = Some (User 2)\<rparr>,
         8 := \<lparr>props = [], proto = Ref 3, code = None\<rparr>),
      next_addr := 9\<rparr>"

definition inherit_instance_heap :: heap where
  "inherit_instance_heap =
     put (snd (new_object (Ref 11)
            (case extend [Ref 7, Ref 4] inherit_heap of Inr (K, h') \<Rightarrow> h' | Inl (e, h') \<Rightarrow> h')))
         14 ''early'' (Bool True)"

text \<open>An object with its own properties replaced: the same instance with other fields.\<close>

definition with_props :: "heap \<Rightarrow> addr \<Rightarrow> (string \<times> val \<times> bool) list \<Rightarrow> heap" where
  "with_props h a ps = h\<lparr>store := (store h)(a := (store h a)\<lparr>props := ps\<rparr>)\<rparr>"

section \<open>Properties\<close>

subsection \<open>Errors of the property operations\<close>

lemma get_prop_error: "get_prop h v k = Inl e \<Longrightarrow> e = RuntimeTypeError \<or> e = NoReturn"
  by (auto simp: get_prop_def split: val.splits option.splits)

lemma set_prop_error: "set_prop h t k v = Inl e \<Longrightarrow> e = RuntimeTypeError"
  by (auto simp: set_prop_def split: val.splits)

lemma show_int_42: "show_int 42 = ''42''"
  by code_simp

subsection \<open>Own properties, allocation and the prototype walk\<close>

lemma map_of_put_prop:
  "map_of (put_prop ps k v) k' =
     (if k' = k then Some (v, case map_of ps k of Some (w, e) \<Rightarrow> e | None \<Rightarrow> True) else map_of ps k')"
  by (induction ps k v rule: put_prop.induct) auto

lemma next_addr_put [simp]: "next_addr (put h a k v) = next_addr h"
  by (simp add: put_def)

lemma proto_put [simp]: "proto (store (put h a k v) b) = proto (store h b)"
  by (simp add: put_def)

lemma code_put [simp]: "code (store (put h a k v) b) = code (store h b)"
  by (simp add: put_def)

lemma own_prop_put:
  "own_prop (put h a k v) b k' =
     (if b = a \<and> k' = k then Some (v, case own_prop h a k of Some (w, e) \<Rightarrow> e | None \<Rightarrow> True)
      else own_prop h b k')"
  by (simp add: put_def own_prop_def map_of_put_prop)

lemma store_put_other: "b \<noteq> a \<Longrightarrow> store (put h a k v) b = store h b"
  by (simp add: put_def)

lemma get_chain_own: "own_prop h a k = Some (v, e) \<Longrightarrow> get_chain h a k = Some v"
  by (subst get_chain.simps) (simp add: own_prop_def)

lemma get_chain_step:
  "own_prop h a k = None \<Longrightarrow> proto (store h a) = Ref b \<Longrightarrow> get_chain h a k = get_chain h b k"
  by (subst get_chain.simps) (simp add: own_prop_def)

lemma get_chain_agree_Some:
  assumes "get_chain h a k = Some v"
    and "a \<in> A"
    and "\<And>b. b \<in> A \<Longrightarrow> own_prop h' b k = own_prop h b k \<and> proto (store h' b) = proto (store h b)"
    and "\<And>b c. b \<in> A \<Longrightarrow> proto (store h b) = Ref c \<Longrightarrow> c \<in> A"
  shows "get_chain h' a k = Some v"
  using assms
proof (induction h a k v rule: get_chain.raw_induct)
  case (1 walk h a k v)
  note step = \<open>(case map_of (props (store h a)) k of
                  None \<Rightarrow> (case proto (store h a) of Ref b \<Rightarrow> walk h b k | _ \<Rightarrow> Some Undefined)
                | Some (v, e) \<Rightarrow> Some v) = Some v\<close>
  have same: "own_prop h' a k = own_prop h a k" "proto (store h' a) = proto (store h a)"
    using "1.prems" by auto
  show ?case
  proof (cases "own_prop h a k")
    case (Some ve)
    then show ?thesis
      using step same by (cases ve) (simp add: get_chain_own own_prop_def)
  next
    case None
    show ?thesis
    proof (cases "proto (store h a)")
      case (Ref c)
      then have "walk h c k = Some v"
        using step None by (simp add: own_prop_def)
      moreover have "get_chain h c k = Some v"
        using "1.prems"(1) None Ref by (simp add: get_chain_step)
      moreover have "c \<in> A"
        using "1.prems" Ref by blast
      ultimately have "get_chain h' c k = Some v"
        using "1.IH" "1.prems" by blast
      then show ?thesis
        using None same Ref by (simp add: get_chain_step)
    qed (use step None same in \<open>subst get_chain.simps, simp add: own_prop_def\<close>)+
  qed
qed (rule assms(1))

lemma get_chain_agree:
  assumes "a \<in> A"
    and "\<And>b. b \<in> A \<Longrightarrow> own_prop h' b k = own_prop h b k \<and> proto (store h' b) = proto (store h b)"
    and "\<And>b c. b \<in> A \<Longrightarrow> proto (store h b) = Ref c \<Longrightarrow> c \<in> A"
  shows "get_chain h' a k = get_chain h a k"
proof (cases "get_chain h a k")
  case (Some v)
  then show ?thesis
    using get_chain_agree_Some [OF Some assms] by simp
next
  case None
  show ?thesis
  proof (cases "get_chain h' a k")
    case (Some v)
    have "get_chain h a k = Some v"
      by (rule get_chain_agree_Some [OF Some assms(1)]) (use assms(2,3) in auto)
    then show ?thesis using None by simp
  qed (simp add: None)
qed

lemma own_value_put:
  "own_value (put h a k v) b k' = (if b = a \<and> k' = k then Some v else own_value h b k')"
  by (simp add: own_value_def own_prop_put)

lemma get_chain_own_value: "own_value h a k = Some v \<Longrightarrow> get_chain h a k = Some v"
  by (auto simp: own_value_def dest: get_chain_own)

lemma fst_alloc_function [simp]: "fst (alloc_function c h) = next_addr h"
  by (simp add: alloc_function_def alloc_def)

lemma next_addr_alloc_function [simp]:
  "next_addr (snd (alloc_function c h)) = Suc (Suc (next_addr h))"
  by (simp add: alloc_function_def alloc_def)

lemma store_alloc_function:
  "store (snd (alloc_function c h)) a =
     (if a = next_addr h then
        \<lparr>props = [(''prototype'', Ref (Suc (next_addr h)), False)], proto = Ref FunctionPrototype, code = Some c\<rparr>
      else if a = Suc (next_addr h) then
        \<lparr>props = [(''constructor'', Ref (next_addr h), False)], proto = Ref ObjectPrototype, code = None\<rparr>
      else store h a)"
  by (simp add: alloc_function_def alloc_def)

lemma alloc_function_pair: "alloc_function c h = (next_addr h, snd (alloc_function c h))"
  by (simp add: alloc_function_def alloc_def)

lemma Constructor_function:
  "code (store h a) \<noteq> None \<Longrightarrow> Constructor (Ref a) h = Inr (Ref a, h)"
  by (simp add: Constructor_def typeof_def)

lemma Constructor_object:
  assumes "code (store h a) = None"
  shows "Constructor (Ref a) h =
     (case own_prop h a ''constructor'' of
        None \<Rightarrow>
          Inr (Ref (next_addr h),
               put (put (snd (alloc_function Empty h)) (next_addr h) ''prototype'' (Ref a))
                   a ''constructor'' (Ref (next_addr h)))
      | Some (c, e) \<Rightarrow>
          (case c of
             Ref b \<Rightarrow> Inr (Ref b, put (put h b ''prototype'' (Ref a)) a ''constructor'' (Ref b))
           | _ \<Rightarrow> Inl (RuntimeTypeError, h)))"
proof (cases "own_prop h a ''constructor''")
  case None
  define h1 where "h1 = snd (alloc_function Empty h)"
  have al: "alloc_function Empty h = (next_addr h, h1)"
    unfolding h1_def by (rule alloc_function_pair)
  show ?thesis
    using assms None
    by (simp add: Constructor_def typeof_def hasOwnProperty_def al h1_def [symmetric]
                  set_prop_def get_prop_def get_chain_own_value own_value_put)
next
  case (Some ce)
  obtain c e where ce: "ce = (c, e)" by (cases ce)
  have read: "get_prop h (Ref a) ''constructor'' = Inr c"
    using Some ce by (simp add: get_prop_def get_chain_own)
  show ?thesis
    using assms Some ce read
    by (cases c)
       (simp_all add: Constructor_def typeof_def hasOwnProperty_def set_prop_def get_prop_def
                      get_chain_own_value own_value_put)
qed

lemma Constructor_primitive:
  "(\<forall>a. v \<noteq> Ref a) \<Longrightarrow> \<exists>e. Constructor v h = Inl (e, h)"
  by (cases v) (simp_all add: Constructor_def typeof_def)

lemma Constructor_Inr_Ref:
  assumes "Constructor v h = Inr (c, h')"
  shows "\<exists>b. c = Ref b"
proof (cases v)
  case (Ref a)
  show ?thesis
  proof (cases "code (store h a) = None")
    case True
    then show ?thesis
      using assms Ref by (auto simp: Constructor_object split: option.splits val.splits)
  next
    case False
    then show ?thesis
      using assms Ref by (auto simp: Constructor_function)
  qed
qed (use assms Constructor_primitive [of v h] in auto)

subsection \<open>Rejected arguments of Constructor\<close>

text \<open>
  Claim C6. \<open>Constructor(undefined)\<close> throws the ReferenceError of line 41
  (ArgumentMissing). On \<open>null\<close>, a number, a string or a boolean, and so on every value
  that is neither a function nor a non-null object, it throws the TypeError of line 45
  (ArgumentType), whose message ends with \<open>null\<close> or with the \<open>typeof\<close> of the
  value and the value itself in brackets: \<open>number [42]\<close> for 42. The heap is as it was.
\<close>

theorem Constructor_rejects:
  "Constructor Undefined h = Inl (ReferenceError (Constructor_error @ ''undefined''), h)
   \<and> Constructor Null h = Inl (TypeError (Constructor_error @ ''null''), h)
   \<and> Constructor (Num n) h = Inl (TypeError (Constructor_error @ ''number ['' @ show_int n @ '']''), h)
   \<and> Constructor (Str s) h = Inl (TypeError (Constructor_error @ ''string ['' @ s @ '']''), h)
   \<and> Constructor (Bool b) h =
         Inl (TypeError (Constructor_error @ ''boolean ['' @ (if b then ''true'' else ''false'') @ '']''), h)
   \<and> Constructor (Num 42) h =
         Inl (TypeError ''Constructor(): invalid 'source' argument, must be a function or prototype, but was number [42]'', h)
   \<and> (typeof h v \<noteq> ''function'' \<and> typeof h v \<noteq> ''undefined''
          \<and> (typeof h v \<noteq> ''object'' \<or> v = Null) \<longrightarrow>
        Constructor v h =
          Inl (TypeError (Constructor_error @
                 (if v = Null then ''null'' else typeof h v @ '' ['' @ to_string v @ '']'')), h))"
proof (intro conjI impI)
  show "Constructor (Num 42) h =
          Inl (TypeError ''Constructor(): invalid 'source' argument, must be a function or prototype, but was number [42]'', h)"
    by (simp add: Constructor_def typeof_def to_string_def Constructor_error_def show_int_42)
next
  assume "typeof h v \<noteq> ''function'' \<and> typeof h v \<noteq> ''undefined''
            \<and> (typeof h v \<noteq> ''object'' \<or> v = Null)"
  then show "Constructor v h =
          Inl (TypeError (Constructor_error @
                 (if v = Null then ''null'' else typeof h v @ '' ['' @ to_string v @ '']'')), h)"
    by (cases v) (auto simp: Constructor_def typeof_def split: if_splits)
qed (simp_all add: Constructor_def typeof_def to_string_def)

theorem Constructor_rejects_witness:
  "Constructor Undefined example_heap =
     Inl (ReferenceError ''Constructor(): invalid 'source' argument, must be a function or prototype, but was undefined'', example_heap)
   \<and> Constructor Null example_heap =
     Inl (TypeError ''Constructor(): invalid 'source' argument, must be a function or prototype, but was null'', example_heap)
   \<and> Constructor (Num 42) example_heap =
     Inl (TypeError ''Constructor(): invalid 'source' argument, must be a function or prototype, but was number [42]'', example_heap)
   \<and> typeof example_heap (Bool False) \<noteq> ''function''
   \<and> typeof example_heap (Bool False) \<noteq> ''undefined''
   \<and> typeof example_heap (Bool False) \<noteq> ''object''
   \<and> Constructor (Bool False) example_heap =
     Inl (TypeError ''Constructor(): invalid 'source' argument, must be a function or prototype, but was boolean [false]'', example_heap)"
  using Constructor_rejects [of example_heap 0 "[]" False "Bool False"]
  by (simp add: Constructor_error_def typeof_def to_string_def)

subsection \<open>The argument count of extend\<close>

lemma Constructor_not_extend_error:
  "Constructor v h \<noteq> Inl (TypeError (extend_error @ m), h')"
  by (auto simp: Constructor_def Let_def extend_error_def Constructor_error_def
           split: sum.splits prod.splits if_splits dest: get_prop_error set_prop_error)

lemma pass_through_not_extend_error:
  "pass_through ty v h \<noteq> Inl (TypeError (extend_error @ m), h')"
  by (simp add: pass_through_def Constructor_not_extend_error)

text \<open>
  Claim C7. With no argument or one, \<open>extend\<close> throws the TypeError of line 69
  (ArgumentCount), having done nothing but create its local function \<open>F\<close>. With two
  arguments or more it never throws a TypeError whose message starts with
  \<open>Constructor.extend(): \<close>, and the arguments after the second change nothing.
\<close>

theorem extend_argument_count:
  "(length args < 2 \<longrightarrow>
      extend args h =
        Inl (TypeError ''Constructor.extend(): requires 2 arguments, source and target.'',
             snd (alloc_function Empty h)))
   \<and> (2 \<le> length args \<longrightarrow> (\<forall>m h'. extend args h \<noteq> Inl (TypeError (extend_error @ m), h')))
   \<and> extend (s # t # rest) h = extend [s, t] h"
proof (intro conjI impI allI)
  assume "length args < 2"
  then show "extend args h =
        Inl (TypeError ''Constructor.extend(): requires 2 arguments, source and target.'',
             snd (alloc_function Empty h))"
    by (simp add: extend_def extend_error_def split: prod.splits)
next
  fix m h'
  assume "2 \<le> length args"
  then show "extend args h \<noteq> Inl (TypeError (extend_error @ m), h')"
    using pass_through_not_extend_error
    by (auto simp: extend_def Let_def split: sum.splits prod.splits if_splits val.splits
             dest: get_prop_error set_prop_error)
next
  show "extend (s # t # rest) h = extend [s, t] h"
    by (simp add: extend_def)
qed

theorem extend_argument_count_witness:
  "length [Ref 2] < 2
   \<and> extend [Ref 2] example_heap =
        Inl (TypeError ''Constructor.extend(): requires 2 arguments, source and target.'',
             snd (alloc_function Empty example_heap))
   \<and> 2 \<le> length [Ref 2, Ref 4, Num 7]
   \<and> extend [Ref 2, Ref 4, Num 7] example_heap \<noteq>
        Inl (TypeError ''Constructor.extend(): requires 2 arguments, source and target.'',
             snd (alloc_function Empty example_heap))
   \<and> extend [Ref 2, Ref 4, Num 7] example_heap = extend [Ref 2, Ref 4] example_heap"
proof -
  note short = extend_argument_count [of "[Ref 2]" example_heap "Ref 2" "Ref 4" "[Num 7]"]
  note long = extend_argument_count [of "[Ref 2, Ref 4, Num 7]" example_heap "Ref 2" "Ref 4" "[Num 7]"]
  have len1: "length [Ref 2] < 2" and len3: "2 \<le> length [Ref 2, Ref 4, Num 7]"
    by simp_all
  have thrown: "extend [Ref 2] example_heap =
        Inl (TypeError ''Constructor.extend(): requires 2 arguments, source and target.'',
             snd (alloc_function Empty example_heap))"
    using short len1 by blast
  have never: "\<forall>m h'. extend [Ref 2, Ref 4, Num 7] example_heap \<noteq> Inl (TypeError (extend_error @ m), h')"
    using long len3 by blast
  have msg: "extend_error @ ''requires 2 arguments, source and target.'' =
               ''Constructor.extend(): requires 2 arguments, source and target.''"
    by (simp add: extend_error_def)
  have not_thrown: "extend [Ref 2, Ref 4, Num 7] example_heap \<noteq>
        Inl (TypeError ''Constructor.extend(): requires 2 arguments, source and target.'',
             snd (alloc_function Empty example_heap))"
    using never [rule_format, of "''requires 2 arguments, source and target.''"
                                 "snd (alloc_function Empty example_heap)"]
    unfolding msg .
  have ignored: "extend [Ref 2, Ref 4, Num 7] example_heap = extend [Ref 2, Ref 4] example_heap"
    using long by blast
  from len1 thrown len3 not_thrown ignored show ?thesis
    by (intro conjI)
qed

subsection \<open>What a successful call of extend has done\<close>

lemma case_alloc_function:
  "(case alloc_function c h of (f, h') \<Rightarrow> g f h') = g (next_addr h) (snd (alloc_function c h))"
  by (simp add: alloc_function_def alloc_def)

lemma case_new_object:
  "(case new_object pv h of (p, h') \<Rightarrow> g p h') = g (next_addr h) (snd (new_object pv h))"
  by (simp add: new_object_def alloc_def)

lemma next_addr_new_object [simp]: "next_addr (snd (new_object pv h)) = Suc (next_addr h)"
  by (simp add: new_object_def alloc_def)

lemma store_new_object:
  "store (snd (new_object pv h)) a =
     (if a = next_addr h then
        \<lparr>props = [], proto = (case pv of Ref t \<Rightarrow> Ref t | _ \<Rightarrow> Ref ObjectPrototype), code = None\<rparr>
      else store h a)"
  by (simp add: new_object_def alloc_def)

lemma next_addr_copy_keys [simp]: "next_addr (copy_keys h f t ks) = next_addr h"
  by (induction ks arbitrary: h) (auto split: option.splits)

lemma next_addr_copy_own [simp]: "next_addr (copy_own h f t) = next_addr h"
  by (simp add: copy_own_def)

lemma store_copy_keys_other: "b \<noteq> t \<Longrightarrow> store (copy_keys h f t ks) b = store h b"
  by (induction ks arbitrary: h) (auto simp: store_put_other split: option.splits)

lemma store_copy_own_other: "b \<noteq> t \<Longrightarrow> store (copy_own h f t) b = store h b"
  by (simp add: copy_own_def store_copy_keys_other)

lemma proto_copy_keys [simp]: "proto (store (copy_keys h f t ks) b) = proto (store h b)"
  by (induction ks arbitrary: h) (auto split: option.splits)

lemma code_copy_keys [simp]: "code (store (copy_keys h f t ks) b) = code (store h b)"
  by (induction ks arbitrary: h) (auto split: option.splits)

lemma proto_copy_own [simp]: "proto (store (copy_own h f t) b) = proto (store h b)"
  by (simp add: copy_own_def)

lemma code_copy_own [simp]: "code (store (copy_own h f t) b) = code (store h b)"
  by (simp add: copy_own_def)

lemma pass_through_Ref:
  assumes "pass_through (typeof h v) v h1 = Inr (c, h2)"
  shows "\<exists>b. c = Ref b"
proof (cases "typeof h v = ''function''")
  case True
  then show ?thesis
    using assms by (cases v) (auto simp: pass_through_def typeof_def split: if_splits)
next
  case False
  then show ?thesis
    using assms Constructor_Inr_Ref by (auto simp: pass_through_def)
qed





subsection \<open>The back-reference of the instance template\<close>







subsection \<open>Constructor on an object specification\<close>





lemma proto_alloc_function_old:
  "a < next_addr h \<Longrightarrow> proto (store (snd (alloc_function c h)) a) = proto (store h a)"
  by (simp add: store_alloc_function)









subsection \<open>Errors and what has been written before them\<close>

lemma Constructor_Inl:
  assumes "Constructor v h = Inl (e, h')"
  shows "h' = h \<and> e \<noteq> NoReturn"
proof (cases v)
  case (Ref a)
  show ?thesis
  proof (cases "code (store h a) = None")
    case True
    then show ?thesis
      using assms Ref by (auto simp: Constructor_object split: option.splits val.splits)
  next
    case False
    then show ?thesis
      using assms Ref by (simp add: Constructor_function)
  qed
qed (use assms in \<open>auto simp: Constructor_def typeof_def\<close>)

lemma pass_through_Inl:
  "pass_through ty v h = Inl (e, h') \<Longrightarrow> h' = h \<and> e \<noteq> NoReturn"
  using Constructor_Inl by (auto simp: pass_through_def split: if_splits)

lemma store_alloc_function_old:
  "a < next_addr h \<Longrightarrow> store (snd (alloc_function c h)) a = store h a"
  by (simp add: store_alloc_function)

lemma get_prop_Ref_error: "get_prop h (Ref a) k = Inl e \<Longrightarrow> e = NoReturn"
  by (auto simp: get_prop_def split: option.splits)

lemma extend_Inl:
  assumes "extend args h = Inl (e, h')" and "e \<noteq> NoReturn"
  shows "h' = snd (alloc_function Empty h)
         \<or> (\<exists>s t rest newSource.
               args = s # t # rest
               \<and> pass_through (typeof (snd (alloc_function Empty h)) s) s (snd (alloc_function Empty h))
                    = Inr (newSource, h')
               \<and> pass_through (typeof (snd (alloc_function Empty h)) t) t h' = Inl (e, h'))"
proof (cases "length args < 2")
  case True
  then show ?thesis
    using assms by (simp add: extend_def case_alloc_function)
next
  case False
  then obtain s t rest where args: "args = s # t # rest"
    by (cases args; cases "tl args") auto
  define hF where "hF = snd (alloc_function Empty h)"
  note defs = extend_def case_alloc_function case_new_object Let_def hF_def [symmetric] args
  show ?thesis
  proof (cases "pass_through (typeof hF s) s hF")
    case (Inl x)
    then show ?thesis
      using assms pass_through_Inl [of "typeof hF s" s hF "fst x" "snd x"]
      by (auto simp: defs)
  next
    case (Inr y)
    obtain newSource h1 where y: "y = (newSource, h1)" by (cases y)
    show ?thesis
    proof (cases "pass_through (typeof hF t) t h1")
      case (Inl x)
      then show ?thesis
        using assms(1) Inr y pass_through_Inl [of "typeof hF t" t h1 "fst x" "snd x"]
        by (auto simp: defs)
    next
      case (Inr z)
      obtain nc h2 where z: "z = (nc, h2)" by (cases z)
      obtain k where nc: "nc = Ref k"
        using Inr z pass_through_Ref by blast
      obtain ns where ns: "newSource = Ref ns"
        using \<open>pass_through (typeof hF s) s hF = Inr y\<close> y pass_through_Ref by blast
      have "e = NoReturn"
        using assms(1) \<open>pass_through (typeof hF s) s hF = Inr y\<close> y Inr z nc ns
        by (auto simp: defs set_prop_def split: sum.splits if_splits val.splits
                 dest: get_prop_Ref_error)
      then show ?thesis
        using assms(2) by simp
    qed
  qed
qed


lemma outcome_Inl: "outcome r = Inl e \<Longrightarrow> \<exists>h'. r = Inl (e, h')"
  by (cases r) (auto simp: outcome_def)

text \<open>
  Claim C9, as amended. \<open>Constructor\<close> throws before it writes anything: the heap of
  an error is the heap of the call. When \<open>extend\<close> throws, every object that
  existed before the call is as it was (only the local function \<open>F\<close> has been
  created), except in one case: the source was not a function and has been normalized,
  and the error is that of normalizing the target. The heap is then the one
  \<open>Constructor(source)\<close> left, the source written with its \<open>constructor\<close>.
  (\<open>NoReturn\<close> is not an error a program can see; it is left aside.)
\<close>

theorem errors_and_mutation:
  "(Constructor v h = Inl (e, h') \<longrightarrow> h' = h)
   \<and> (extend args h = Inl (e, h') \<and> e \<noteq> NoReturn \<longrightarrow>
        (\<forall>a<next_addr h. store h' a = store h a)
        \<or> (\<exists>s t rest newSource.
              args = s # t # rest
              \<and> typeof (snd (alloc_function Empty h)) s \<noteq> ''function''
              \<and> Constructor s (snd (alloc_function Empty h)) = Inr (newSource, h')
              \<and> pass_through (typeof (snd (alloc_function Empty h)) t) t h' = Inl (e, h')))"
proof (intro conjI impI)
  assume "Constructor v h = Inl (e, h')"
  then show "h' = h"
    using Constructor_Inl by blast
next
  define hF where "hF = snd (alloc_function Empty h)"
  assume a: "extend args h = Inl (e, h') \<and> e \<noteq> NoReturn"
  then consider (entry) "h' = hF"
    | (target) s t rest newSource where "args = s # t # rest"
        "pass_through (typeof hF s) s hF = Inr (newSource, h')"
        "pass_through (typeof hF t) t h' = Inl (e, h')"
    using extend_Inl [of args h e h'] unfolding hF_def by blast
  then show "(\<forall>a<next_addr h. store h' a = store h a)
        \<or> (\<exists>s t rest newSource.
              args = s # t # rest
              \<and> typeof (snd (alloc_function Empty h)) s \<noteq> ''function''
              \<and> Constructor s (snd (alloc_function Empty h)) = Inr (newSource, h')
              \<and> pass_through (typeof (snd (alloc_function Empty h)) t) t h' = Inl (e, h'))"
  proof cases
    case entry
    then show ?thesis
      by (simp add: hF_def store_alloc_function_old)
  next
    case target
    show ?thesis
    proof (cases "typeof hF s = ''function''")
      case True
      then have "h' = hF"
        using target(2) by (simp add: pass_through_def)
      then show ?thesis
        by (simp add: hF_def store_alloc_function_old)
    next
      case False
      then have "Constructor s hF = Inr (newSource, h')"
        using target(2) by (simp add: pass_through_def)
      then show ?thesis
        using target False unfolding hF_def by blast
    qed
  qed
qed

lemma example_bad_target:
  "outcome (extend [Ref 2, Num 42] example_heap) =
     Inl (TypeError ''Constructor(): invalid 'source' argument, must be a function or prototype, but was number [42]'')"
  by code_simp

lemma example_source_mutated:
  "case extend [Ref 7, Num 42] example_heap of
     Inl (e, h') \<Rightarrow>
       e = TypeError ''Constructor(): invalid 'source' argument, must be a function or prototype, but was number [42]''
       \<and> own_value h' 7 ''constructor'' = Some (Ref 10)
   | Inr x \<Rightarrow> False"
  by code_simp

theorem errors_and_mutation_witness:
  "Constructor (Num 42) example_heap =
     Inl (TypeError ''Constructor(): invalid 'source' argument, must be a function or prototype, but was number [42]'', example_heap)
   \<and> (\<exists>h'. extend [Ref 2, Num 42] example_heap =
          Inl (TypeError ''Constructor(): invalid 'source' argument, must be a function or prototype, but was number [42]'', h')
        \<and> store h' 2 = store example_heap 2 \<and> store h' 3 = store example_heap 3)"
proof -
  let ?e = "TypeError ''Constructor(): invalid 'source' argument, must be a function or prototype, but was number [42]''"
  obtain h0 where c: "Constructor (Num 42) example_heap = Inl (?e, h0)"
    by (simp add: Constructor_def typeof_def to_string_def Constructor_error_def show_int_42)
  have h0: "h0 = example_heap"
    using errors_and_mutation [of "Num 42" example_heap ?e h0] c by blast
  obtain h' where x: "extend [Ref 2, Num 42] example_heap = Inl (?e, h')"
    using outcome_Inl [OF example_bad_target] by blast
  have fn: "typeof (snd (alloc_function Empty example_heap)) (Ref 2) = ''function''"
    by (simp add: typeof_def store_alloc_function example_heap_def)
  have "\<forall>a<next_addr example_heap. store h' a = store example_heap a"
    using errors_and_mutation [of "Num 42" example_heap ?e h' "[Ref 2, Num 42]"] x fn by auto
  then have "store h' 2 = store example_heap 2 \<and> store h' 3 = store example_heap 3"
    by (simp add: example_heap_def)
  then show ?thesis
    using c h0 x by blast
qed

text \<open>
  The claim as stated fails: \<open>extend(plain, 42)\<close> throws the TypeError of line 45
  for the target after line 78 has given \<open>plain\<close> a \<open>constructor\<close>.
\<close>

theorem extend_mutates_source_counterexample:
  "own_value example_heap 7 ''constructor'' = None
   \<and> (\<exists>h'. extend [Ref 7, Num 42] example_heap =
          Inl (TypeError ''Constructor(): invalid 'source' argument, must be a function or prototype, but was number [42]'', h')
        \<and> own_value h' 7 ''constructor'' = Some (Ref 10))"
proof -
  have "own_value example_heap 7 ''constructor'' = None"
    by (simp add: own_value_def own_prop_def example_heap_def)
  then show ?thesis
    using example_source_mutated by (auto split: sum.splits)
qed

subsection \<open>The link constructor\<close>


lemma wf_heap_proto:
  assumes "wf_heap h" and "a < next_addr h" and "proto (store h a) = Ref b"
  shows "b < next_addr h"
proof -
  have "wf_obj h (store h a)"
    using assms(1,2) by (simp add: wf_heap_def list_all_iff)
  then show ?thesis
    using assms(3) by (simp add: wf_obj_def valid_def)
qed

lemma get_chain_put_other_key:
  "k \<noteq> k' \<Longrightarrow> get_chain (put h a k' v) b k = get_chain h b k"
  by (rule get_chain_agree [where A = UNIV]) (simp_all add: own_prop_put)

lemma get_prop_put_other_key:
  "k \<noteq> k' \<Longrightarrow> get_prop (put h a k' v) w k = get_prop h w k"
  by (simp add: get_prop_def get_chain_put_other_key split: val.splits)















subsection \<open>A target that is a function\<close>





lemma own_prop_new_object:
  "own_prop (snd (new_object pv h)) a k = (if a = next_addr h then None else own_prop h a k)"
  by (simp add: own_prop_def store_new_object)

lemma proto_new_object:
  "proto (store (snd (new_object pv h)) a) =
     (if a = next_addr h then (case pv of Ref t \<Rightarrow> Ref t | _ \<Rightarrow> Ref ObjectPrototype)
      else proto (store h a))"
  by (simp add: store_new_object)

lemma code_new_object:
  "code (store (snd (new_object pv h)) a) = (if a = next_addr h then None else code (store h a))"
  by (simp add: store_new_object)

lemma get_prop_own: "own_prop h a k = Some (v, e) \<Longrightarrow> get_prop h (Ref a) k = Inr v"
  by (simp add: get_prop_def get_chain_own)

lemma get_prop_step:
  "own_prop h a k = None \<Longrightarrow> proto (store h a) = Ref b \<Longrightarrow> get_prop h (Ref a) k = get_prop h (Ref b) k"
  by (simp add: get_prop_def get_chain_step)



subsection \<open>The parent initializer\<close>

lemma get_chain_new_object_old:
  assumes "wf_heap h" and "a < next_addr h"
  shows "get_chain (snd (new_object pv h)) a k = get_chain h a k"
proof (rule get_chain_agree [where A = "{b. b < next_addr h}"])
  show "a \<in> {b. b < next_addr h}"
    using assms(2) by simp
next
  fix b assume "b \<in> {b. b < next_addr h}"
  then show "own_prop (snd (new_object pv h)) b k = own_prop h b k
             \<and> proto (store (snd (new_object pv h)) b) = proto (store h b)"
    by (simp add: own_prop_new_object proto_new_object)
next
  fix b c assume "b \<in> {b. b < next_addr h}" "proto (store h b) = Ref c"
  then show "c \<in> {b. b < next_addr h}"
    using wf_heap_proto [OF assms(1)] by auto
qed

lemma get_prop_new_object_old:
  "wf_heap h \<Longrightarrow> a < next_addr h \<Longrightarrow> get_prop (snd (new_object pv h)) (Ref a) k = get_prop h (Ref a) k"
  by (simp add: get_prop_def get_chain_new_object_old)

lemma parent_unfold:
  assumes "wf_heap h" and "L < next_addr h" and "T < next_addr h"
    and "get_prop h (Ref this) ''constructor'' = Inr (Ref K)"
    and "get_prop h (Ref K) ''parent'' = Inr (Ref L)"
    and "code (store h L) = Some Empty"
    and "get_prop h (Ref L) ''prototype'' = Inr (Ref T)"
    and "get_prop h (Ref T) ''constructor'' = Inr S"
  shows "parent (call U (Suc n)) this args h =
           (case apply_fn (call U (Suc n)) S (Ref (next_addr h)) args (snd (new_object (Ref T) h)) of
              Inl x \<Rightarrow> Inl x
            | Inr (r, h2) \<Rightarrow>
                Inr (Ref this, put (copy_own h2 (next_addr h) this) this ''parent'' (Ref (next_addr h))))"
proof -
  define h1 where "h1 = snd (new_object (Ref T) h)"
  have codeL: "code (store h1 L) = Some Empty"
    using assms(2,6) by (simp add: h1_def code_new_object)
  have new: "new (call U (Suc n)) (Ref L) [] h = Inr (next_addr h, h1)"
    using assms(6,7) codeL by (simp add: new_def case_new_object h1_def [symmetric])
  have "get_prop h1 (Ref (next_addr h)) ''constructor'' = get_prop h1 (Ref T) ''constructor''"
    by (rule get_prop_step) (simp_all add: h1_def own_prop_new_object proto_new_object)
  also have "\<dots> = Inr S"
    using assms(1,3,8) by (simp add: h1_def get_prop_new_object_old)
  finally have pc: "get_prop h1 (Ref (next_addr h)) ''constructor'' = Inr S" .
  show ?thesis
    unfolding parent_def Let_def
    by (simp add: assms(4,5) new pc h1_def [symmetric])
qed


lemma own_prop_copy_keys_other:
  "a \<noteq> t \<Longrightarrow> own_prop (copy_keys h f t ks) a k = own_prop h a k"
  by (simp add: own_prop_def store_copy_keys_other)

lemma own_value_copy_keys:
  assumes "f \<noteq> t"
  shows "own_value (copy_keys h f t ks) t k =
           (if k \<in> set ks \<and> own_prop h f k \<noteq> None then map_option fst (own_prop h f k)
            else own_value h t k)"
  using assms
proof (induction ks arbitrary: h)
  case Nil
  then show ?case by simp
next
  case (Cons x ks)
  show ?case
  proof (cases "own_prop h f x")
    case None
    then show ?thesis
      using Cons by auto
  next
    case (Some ve)
    obtain v e where ve: "ve = (v, e)" by (cases ve)
    have f: "own_prop (put h t x v) f k = own_prop h f k"
      using Cons.prems by (simp add: own_prop_put)
    show ?thesis
      using Cons.IH [OF Cons.prems, of "put h t x v"] Some ve f
      by (auto simp: own_value_put)
  qed
qed

lemma own_enumerable_keys_own_prop:
  assumes "own_prop h a k = Some (v, True)"
  shows "k \<in> set (own_enumerable_keys h a)"
proof -
  have "(k, v, True) \<in> set (props (store h a))"
    using assms by (auto simp: own_prop_def dest: map_of_SomeD)
  then show ?thesis
    by (force simp: own_enumerable_keys_def)
qed

lemma own_value_copy_own:
  assumes "f \<noteq> t" and "own_prop h f k = Some (v, True)"
  shows "own_value (copy_own h f t) t k = Some v"
  using assms own_enumerable_keys_own_prop [OF assms(2)]
  by (simp add: copy_own_def own_value_copy_keys)

lemma own_value_copy_own_absent:
  assumes "f \<noteq> t" and "k \<notin> set (own_enumerable_keys h f)"
  shows "own_value (copy_own h f t) t k = own_value h t k"
  using assms by (simp add: copy_own_def own_value_copy_keys)

text \<open>
  Claim C1, as amended. Take an instance \<open>this\<close> of a heap without dangling
  references whose \<open>parent\<close> is the function installed by \<open>extend\<close>, whose
  \<open>constructor\<close> resolves to \<open>K\<close>, with \<open>K.parent\<close> the link constructor
  \<open>L\<close> (a function with an empty body) and \<open>L.prototype\<close> the object \<open>T\<close>,
  the instance template of the source. Calling \<open>this.parent(args)\<close> makes a fresh
  object \<open>p\<close> with no property of its own and \<open>T\<close> as its prototype, and
  applies to \<open>p\<close> and exactly \<open>args\<close> the function \<open>S\<close> that
  \<open>constructor\<close> resolves to from \<open>T\<close>; an error of that call is the error of
  \<open>this.parent(args)\<close>. When it returns, every own enumerable property of \<open>p\<close>
  has been copied onto the instance, the other own properties of the instance are as the
  call left them, no other object has been written, and \<open>parent\<close> is an own property
  of the instance holding \<open>p\<close>: reading \<open>this.parent\<close> gives \<open>p\<close>, and
  calling it again is calling an object that is not a function. \<open>S\<close> is the source
  itself when the template of the source points back to it (the back-reference theorem
  above gives that for the constructors \<open>Constructor\<close> and \<open>extend\<close> return).
\<close>

theorem parent_initializer:
  assumes "wf_heap h" and "this < next_addr h" and "L < next_addr h" and "T < next_addr h"
    and "get_prop h (Ref this) ''parent'' = Inr (Ref pf)" and "code (store h pf) = Some Parent"
    and "get_prop h (Ref this) ''constructor'' = Inr (Ref K)"
    and "get_prop h (Ref K) ''parent'' = Inr (Ref L)"
    and "code (store h L) = Some Empty"
    and "get_prop h (Ref L) ''prototype'' = Inr (Ref T)"
    and "get_prop h (Ref T) ''constructor'' = Inr S"
  shows "store (snd (new_object (Ref T) h)) (next_addr h) = \<lparr>props = [], proto = Ref T, code = None\<rparr>
    \<and> call U (Suc (Suc n)) (Ref pf) (Ref this) args h =
        (case apply_fn (call U (Suc n)) S (Ref (next_addr h)) args (snd (new_object (Ref T) h)) of
           Inl x \<Rightarrow> Inl x
         | Inr (r, h2) \<Rightarrow>
             Inr (Ref this, put (copy_own h2 (next_addr h) this) this ''parent'' (Ref (next_addr h))))
    \<and> (\<forall>r h2 h4.
          apply_fn (call U (Suc n)) S (Ref (next_addr h)) args (snd (new_object (Ref T) h)) = Inr (r, h2)
          \<and> h4 = put (copy_own h2 (next_addr h) this) this ''parent'' (Ref (next_addr h)) \<longrightarrow>
          call U (Suc (Suc n)) (Ref pf) (Ref this) args h = Inr (Ref this, h4)
          \<and> (\<forall>k v. own_prop h2 (next_addr h) k = Some (v, True) \<and> k \<noteq> ''parent'' \<longrightarrow>
                 own_value h4 this k = Some v)
          \<and> (\<forall>k. k \<notin> set (own_enumerable_keys h2 (next_addr h)) \<and> k \<noteq> ''parent'' \<longrightarrow>
                 own_value h4 this k = own_value h2 this k)
          \<and> own_value h4 this ''parent'' = Some (Ref (next_addr h))
          \<and> get_prop h4 (Ref this) ''parent'' = Inr (Ref (next_addr h))
          \<and> (\<forall>a. a \<noteq> this \<longrightarrow> store h4 a = store h2 a)
          \<and> (code (store h2 (next_addr h)) = None \<longrightarrow>
               (\<forall>m a. call U (Suc m) (Ref (next_addr h)) (Ref this) a h4 = Inl (RuntimeTypeError, h4))))"
proof -
  define h1 where "h1 = snd (new_object (Ref T) h)"
  have ne: "next_addr h \<noteq> this"
    using assms(2) by simp
  have obj: "store h1 (next_addr h) = \<lparr>props = [], proto = Ref T, code = None\<rparr>"
    by (simp add: h1_def store_new_object)
  have eq: "call U (Suc (Suc n)) (Ref pf) (Ref this) args h =
        (case apply_fn (call U (Suc n)) S (Ref (next_addr h)) args h1 of
           Inl x \<Rightarrow> Inl x
         | Inr (r, h2) \<Rightarrow>
             Inr (Ref this, put (copy_own h2 (next_addr h) this) this ''parent'' (Ref (next_addr h))))"
    using parent_unfold [OF assms(1,3,4,7-11), of U n args] assms(6) by (simp add: h1_def)
  have post: "call U (Suc (Suc n)) (Ref pf) (Ref this) args h = Inr (Ref this, h4)
          \<and> (\<forall>k v. own_prop h2 (next_addr h) k = Some (v, True) \<and> k \<noteq> ''parent'' \<longrightarrow>
                 own_value h4 this k = Some v)
          \<and> (\<forall>k. k \<notin> set (own_enumerable_keys h2 (next_addr h)) \<and> k \<noteq> ''parent'' \<longrightarrow>
                 own_value h4 this k = own_value h2 this k)
          \<and> own_value h4 this ''parent'' = Some (Ref (next_addr h))
          \<and> get_prop h4 (Ref this) ''parent'' = Inr (Ref (next_addr h))
          \<and> (\<forall>a. a \<noteq> this \<longrightarrow> store h4 a = store h2 a)
          \<and> (code (store h2 (next_addr h)) = None \<longrightarrow>
               (\<forall>m a. call U (Suc m) (Ref (next_addr h)) (Ref this) a h4 = Inl (RuntimeTypeError, h4)))"
    if a: "apply_fn (call U (Suc n)) S (Ref (next_addr h)) args h1 = Inr (r, h2)
          \<and> h4 = put (copy_own h2 (next_addr h) this) this ''parent'' (Ref (next_addr h))"
    for r h2 h4
  proof (intro conjI allI impI)
    show "call U (Suc (Suc n)) (Ref pf) (Ref this) args h = Inr (Ref this, h4)"
      using eq a by simp
    show own: "own_value h4 this ''parent'' = Some (Ref (next_addr h))"
      using a by (simp add: own_value_put)
    show "get_prop h4 (Ref this) ''parent'' = Inr (Ref (next_addr h))"
      using own by (simp add: get_prop_def get_chain_own_value)
  next
    fix k v assume "own_prop h2 (next_addr h) k = Some (v, True) \<and> k \<noteq> ''parent''"
    then show "own_value h4 this k = Some v"
      using a own_value_copy_own [OF ne, of h2 k v] by (simp add: own_value_put)
  next
    fix k assume "k \<notin> set (own_enumerable_keys h2 (next_addr h)) \<and> k \<noteq> ''parent''"
    then show "own_value h4 this k = own_value h2 this k"
      using a own_value_copy_own_absent [OF ne, of k h2] by (simp add: own_value_put)
  next
    fix b assume "b \<noteq> this"
    then show "store h4 b = store h2 b"
      using a by (simp add: store_put_other store_copy_own_other)
  next
    fix m b assume "code (store h2 (next_addr h)) = None"
    then show "call U (Suc m) (Ref (next_addr h)) (Ref this) b h4 = Inl (RuntimeTypeError, h4)"
      using a ne by simp
  qed
  show ?thesis
    using obj eq post unfolding h1_def by blast
qed


lemma instance_heap_facts:
  "wf_heap instance_heap \<and> next_addr instance_heap = 14
   \<and> get_prop instance_heap (Ref 13) ''parent'' = Inr (Ref 11)
   \<and> code (store instance_heap 11) = Some Parent
   \<and> get_prop instance_heap (Ref 13) ''constructor'' = Inr (Ref 5)
   \<and> get_prop instance_heap (Ref 5) ''parent'' = Inr (Ref 8)
   \<and> code (store instance_heap 8) = Some Empty
   \<and> get_prop instance_heap (Ref 8) ''prototype'' = Inr (Ref 3)
   \<and> get_prop instance_heap (Ref 3) ''constructor'' = Inr (Ref 2)
   \<and> code (store instance_heap 2) = Some (User 0)
   \<and> own_prop instance_heap 13 ''early'' = Some (Bool True, True)
   \<and> own_prop instance_heap 13 ''kind'' = None
   \<and> own_prop instance_heap 13 ''name'' = None"
  by code_simp

theorem parent_initializer_witness:
  "wf_heap instance_heap \<and> 13 < next_addr instance_heap \<and> 8 < next_addr instance_heap
   \<and> 3 < next_addr instance_heap
   \<and> get_prop instance_heap (Ref 13) ''parent'' = Inr (Ref 11)
   \<and> code (store instance_heap 11) = Some Parent
   \<and> get_prop instance_heap (Ref 13) ''constructor'' = Inr (Ref 5)
   \<and> get_prop instance_heap (Ref 5) ''parent'' = Inr (Ref 8)
   \<and> code (store instance_heap 8) = Some Empty
   \<and> get_prop instance_heap (Ref 8) ''prototype'' = Inr (Ref 3)
   \<and> get_prop instance_heap (Ref 3) ''constructor'' = Inr (Ref 2)
   \<and> (\<exists>h4. call example_env 2 (Ref 11) (Ref 13) [Str ''bob''] instance_heap = Inr (Ref 13, h4)
          \<and> own_value h4 13 ''kind'' = Some (Str ''source'')
          \<and> own_value h4 13 ''name'' = Some (Str ''bob'')
          \<and> own_value h4 13 ''early'' = Some (Bool True)
          \<and> own_value h4 13 ''parent'' = Some (Ref 14)
          \<and> store h4 14 = \<lparr>props = [(''kind'', Str ''source'', True), (''name'', Str ''bob'', True)],
                              proto = Ref 3, code = None\<rparr>
          \<and> call example_env 1 (Ref 14) (Ref 13) [] h4 = Inl (RuntimeTypeError, h4))"
proof -
  note f = instance_heap_facts
  have wf: "wf_heap instance_heap" and n: "next_addr instance_heap = 14"
    and hyps: "get_prop instance_heap (Ref 13) ''parent'' = Inr (Ref 11)"
      "code (store instance_heap 11) = Some Parent"
      "get_prop instance_heap (Ref 13) ''constructor'' = Inr (Ref 5)"
      "get_prop instance_heap (Ref 5) ''parent'' = Inr (Ref 8)"
      "code (store instance_heap 8) = Some Empty"
      "get_prop instance_heap (Ref 8) ''prototype'' = Inr (Ref 3)"
      "get_prop instance_heap (Ref 3) ''constructor'' = Inr (Ref 2)"
    and src: "code (store instance_heap 2) = Some (User 0)"
    and own: "own_prop instance_heap 13 ''early'' = Some (Bool True, True)"
      "own_prop instance_heap 13 ''kind'' = None" "own_prop instance_heap 13 ''name'' = None"
    using f by simp_all
  have lt: "13 < next_addr instance_heap" "8 < next_addr instance_heap" "3 < next_addr instance_heap"
    by (simp_all add: n)
  define h1 where "h1 = snd (new_object (Ref 3) instance_heap)"
  define h2 where "h2 = put (put h1 14 ''kind'' (Str ''source'')) 14 ''name'' (Str ''bob'')"
  define h4 where "h4 = put (copy_own h2 (next_addr instance_heap) 13) 13 ''parent''
                          (Ref (next_addr instance_heap))"
  have run: "apply_fn (call example_env (Suc 0)) (Ref 2) (Ref (next_addr instance_heap)) [Str ''bob'']
               (snd (new_object (Ref 3) instance_heap)) = Inr (Undefined, h2)"
    using src by (simp add: apply_fn_def code_new_object n example_env_def h1_def h2_def)
  have p2: "store h2 14 = \<lparr>props = [(''kind'', Str ''source'', True), (''name'', Str ''bob'', True)],
                              proto = Ref 3, code = None\<rparr>"
    by (simp add: h2_def h1_def put_def store_new_object n)
  have keys: "own_enumerable_keys h2 14 = [''kind'', ''name'']"
    "own_prop h2 14 ''kind'' = Some (Str ''source'', True)"
    "own_prop h2 14 ''name'' = Some (Str ''bob'', True)"
    by (simp_all add: own_enumerable_keys_def own_prop_def p2)
  have early2: "own_value h2 13 ''early'' = Some (Bool True)"
    using own(1) by (simp add: h2_def h1_def own_value_def own_prop_put own_prop_new_object n)
  note t = parent_initializer [OF wf lt hyps, of example_env 0 "[Str ''bob'']"]
  note post = t [THEN conjunct2, THEN conjunct2, rule_format, OF conjI [OF run h4_def]]
  note post1 = post [THEN conjunct1]
  note post2 = post [THEN conjunct2, THEN conjunct1, rule_format, unfolded n]
  note post3 = post [THEN conjunct2, THEN conjunct2, THEN conjunct1, rule_format, unfolded n]
  note post4 = post [THEN conjunct2, THEN conjunct2, THEN conjunct2, THEN conjunct1, unfolded n]
  note post6 = post [THEN conjunct2, THEN conjunct2, THEN conjunct2, THEN conjunct2, THEN conjunct2,
                     THEN conjunct1, rule_format, unfolded n]
  note post7 = post [THEN conjunct2, THEN conjunct2, THEN conjunct2, THEN conjunct2, THEN conjunct2,
                     THEN conjunct2, rule_format, unfolded n]
  have c: "call example_env 2 (Ref 11) (Ref 13) [Str ''bob''] instance_heap = Inr (Ref 13, h4)"
    using post1 by (simp add: numeral_2_eq_2)
  have kind: "own_value h4 13 ''kind'' = Some (Str ''source'')"
    by (rule post2) (simp add: keys)
  have name: "own_value h4 13 ''name'' = Some (Str ''bob'')"
    by (rule post2) (simp add: keys)
  have "own_value h4 13 ''early'' = own_value h2 13 ''early''"
    by (rule post3) (simp add: keys)
  then have early: "own_value h4 13 ''early'' = Some (Bool True)"
    using early2 by simp
  have "store h4 14 = store h2 14"
    by (rule post6) simp
  then have p4: "store h4 14 = \<lparr>props = [(''kind'', Str ''source'', True), (''name'', Str ''bob'', True)],
                              proto = Ref 3, code = None\<rparr>"
    using p2 by simp
  have again: "call example_env 1 (Ref 14) (Ref 13) [] h4 = Inl (RuntimeTypeError, h4)"
    using post7 [of 0 "[]"] p2 by simp
  show ?thesis
    by (intro conjI exI [of _ h4] wf lt hyps c kind name early post4 p4 again)
qed

subsection \<open>Fields set on the instance before the parent initializer runs\<close>

lemma next_addr_with_props [simp]: "next_addr (with_props h a ps) = next_addr h"
  by (simp add: with_props_def)

lemma store_with_props_other: "b \<noteq> a \<Longrightarrow> store (with_props h a ps) b = store h b"
  by (simp add: with_props_def)

lemma proto_with_props [simp]: "proto (store (with_props h a ps) b) = proto (store h b)"
  by (simp add: with_props_def)

lemma code_with_props [simp]: "code (store (with_props h a ps) b) = code (store h b)"
  by (simp add: with_props_def)

lemma own_prop_with_props:
  "own_prop (with_props h a ps) b k = (if b = a then map_of ps k else own_prop h b k)"
  by (simp add: with_props_def own_prop_def)

lemma valid_with_props [simp]: "valid (with_props h a ps) v = valid h v"
  by (cases v) (simp_all add: valid_def)

lemma wf_heap_with_props:
  assumes "wf_heap h" and "list_all (\<lambda>(k, v, e). valid h v) ps"
  shows "wf_heap (with_props h a ps)"
proof -
  have "wf_obj (with_props h a ps) (store (with_props h a ps) b)" if "b < next_addr h" for b
  proof -
    have old: "wf_obj h (store h b)"
      using assms(1) that by (simp add: wf_heap_def list_all_iff)
    show ?thesis
    proof (cases "b = a")
      case True
      have "store (with_props h a ps) a = (store h a)\<lparr>props := ps\<rparr>"
        by (simp add: with_props_def)
      then show ?thesis
        using old assms(2) True by (simp add: wf_obj_def)
    next
      case False
      then show ?thesis
        using old by (simp add: wf_obj_def store_with_props_other)
    qed
  qed
  then show ?thesis
    by (simp add: wf_heap_def list_all_iff)
qed

lemma get_chain_with_props_other:
  assumes "wf_heap h" and "\<forall>b<next_addr h. proto (store h b) \<noteq> Ref a"
    and "c < next_addr h" and "c \<noteq> a"
  shows "get_chain (with_props h a ps) c k = get_chain h c k"
proof (rule get_chain_agree [where A = "{b. b < next_addr h \<and> b \<noteq> a}"])
  show "c \<in> {b. b < next_addr h \<and> b \<noteq> a}"
    using assms(3,4) by simp
next
  fix b assume "b \<in> {b. b < next_addr h \<and> b \<noteq> a}"
  then show "own_prop (with_props h a ps) b k = own_prop h b k
             \<and> proto (store (with_props h a ps) b) = proto (store h b)"
    by (simp add: own_prop_with_props)
next
  fix b d assume "b \<in> {b. b < next_addr h \<and> b \<noteq> a}" "proto (store h b) = Ref d"
  then show "d \<in> {b. b < next_addr h \<and> b \<noteq> a}"
    using assms(2) wf_heap_proto [OF assms(1)] by auto
qed

lemma get_prop_with_props_other:
  "wf_heap h \<Longrightarrow> \<forall>b<next_addr h. proto (store h b) \<noteq> Ref a \<Longrightarrow> c < next_addr h \<Longrightarrow> c \<noteq> a \<Longrightarrow>
     get_prop (with_props h a ps) (Ref c) k = get_prop h (Ref c) k"
  by (simp add: get_prop_def get_chain_with_props_other)

lemma get_chain_with_props_self:
  assumes "wf_heap h" and "\<forall>b<next_addr h. proto (store h b) \<noteq> Ref a" and "a < next_addr h"
    and "map_of ps k = own_prop h a k"
  shows "get_chain (with_props h a ps) a k = get_chain h a k"
proof (cases "own_prop h a k")
  case (Some ve)
  obtain v e where "ve = (v, e)" by (cases ve)
  then show ?thesis
    using Some assms(4) get_chain_own [of h a k v e] get_chain_own [of "with_props h a ps" a k v e]
    by (simp add: own_prop_with_props)
next
  case None
  have none': "own_prop (with_props h a ps) a k = None"
    using None assms(4) by (simp add: own_prop_with_props)
  show ?thesis
  proof (cases "proto (store h a)")
    case (Ref b)
    have "b \<noteq> a" "b < next_addr h"
      using assms(2,3) Ref wf_heap_proto [OF assms(1,3) Ref] by auto
    then show ?thesis
      using None none' Ref assms(1,2)
      by (simp add: get_chain_step get_chain_with_props_other)
  qed (use None none' in \<open>subst get_chain.simps, subst (2) get_chain.simps, simp add: own_prop_def\<close>)+
qed

text \<open>
  Claim C8, as amended. Take two heaps that differ only in the own properties of the
  instance, with the same own \<open>constructor\<close> (or none) on the instance in both;
  nothing delegates to the instance, and it is none of \<open>K\<close>, \<open>L\<close>,
  \<open>T\<close>. Then the parent initializer makes the same call in both: the same function
  \<open>S\<close>, bound to the same fresh object \<open>p\<close> (not the instance, no property of
  its own, prototype \<open>T\<close>), with the same arguments, in heaps that agree on every
  object but the instance.
\<close>

theorem parent_noninterference:
  assumes "wf_heap h" and "this < next_addr h" and "K < next_addr h" and "L < next_addr h"
    and "T < next_addr h"
    and "get_prop h (Ref this) ''constructor'' = Inr (Ref K)"
    and "get_prop h (Ref K) ''parent'' = Inr (Ref L)"
    and "code (store h L) = Some Empty"
    and "get_prop h (Ref L) ''prototype'' = Inr (Ref T)"
    and "get_prop h (Ref T) ''constructor'' = Inr S"
    and "\<forall>b<next_addr h. proto (store h b) \<noteq> Ref this"
    and "K \<noteq> this" and "L \<noteq> this" and "T \<noteq> this"
    and "list_all (\<lambda>(k, v, e). valid h v) ps"
    and "map_of ps ''constructor'' = own_prop h this ''constructor''"
  shows "parent (call U (Suc n)) this args h =
           (case apply_fn (call U (Suc n)) S (Ref (next_addr h)) args (snd (new_object (Ref T) h)) of
              Inl x \<Rightarrow> Inl x
            | Inr (r, h2) \<Rightarrow>
                Inr (Ref this, put (copy_own h2 (next_addr h) this) this ''parent'' (Ref (next_addr h))))
    \<and> parent (call U (Suc n)) this args (with_props h this ps) =
           (case apply_fn (call U (Suc n)) S (Ref (next_addr h)) args
                   (snd (new_object (Ref T) (with_props h this ps))) of
              Inl x \<Rightarrow> Inl x
            | Inr (r, h2) \<Rightarrow>
                Inr (Ref this, put (copy_own h2 (next_addr h) this) this ''parent'' (Ref (next_addr h))))
    \<and> next_addr h \<noteq> this
    \<and> store (snd (new_object (Ref T) (with_props h this ps))) (next_addr h)
        = \<lparr>props = [], proto = Ref T, code = None\<rparr>
    \<and> store (snd (new_object (Ref T) h)) (next_addr h) = \<lparr>props = [], proto = Ref T, code = None\<rparr>
    \<and> (\<forall>a. a \<noteq> this \<longrightarrow>
          store (snd (new_object (Ref T) (with_props h this ps))) a = store (snd (new_object (Ref T) h)) a)"
proof -
  define h' where "h' = with_props h this ps"
  have wf': "wf_heap h'"
    unfolding h'_def using assms(1,15) by (rule wf_heap_with_props)
  have c': "get_prop h' (Ref this) ''constructor'' = Inr (Ref K)"
    using assms(6) get_chain_with_props_self [OF assms(1,11,2,16)]
    by (simp add: get_prop_def h'_def)
  have k': "get_prop h' (Ref K) ''parent'' = Inr (Ref L)"
    using assms(1,3,7,11,12) by (simp add: h'_def get_prop_with_props_other)
  have l': "get_prop h' (Ref L) ''prototype'' = Inr (Ref T)"
    using assms(1,4,9,11,13) by (simp add: h'_def get_prop_with_props_other)
  have t': "get_prop h' (Ref T) ''constructor'' = Inr S"
    using assms(1,5,10,11,14) by (simp add: h'_def get_prop_with_props_other)
  have code': "code (store h' L) = Some Empty"
    using assms(8) by (simp add: h'_def)
  have n': "next_addr h' = next_addr h"
    by (simp add: h'_def)
  have first: "parent (call U (Suc n)) this args h =
           (case apply_fn (call U (Suc n)) S (Ref (next_addr h)) args (snd (new_object (Ref T) h)) of
              Inl x \<Rightarrow> Inl x
            | Inr (r, h2) \<Rightarrow>
                Inr (Ref this, put (copy_own h2 (next_addr h) this) this ''parent'' (Ref (next_addr h))))"
    by (rule parent_unfold [OF assms(1,4,5,6,7,8,9,10)])
  have second: "parent (call U (Suc n)) this args h' =
           (case apply_fn (call U (Suc n)) S (Ref (next_addr h)) args (snd (new_object (Ref T) h')) of
              Inl x \<Rightarrow> Inl x
            | Inr (r, h2) \<Rightarrow>
                Inr (Ref this, put (copy_own h2 (next_addr h) this) this ''parent'' (Ref (next_addr h))))"
    using parent_unfold [OF wf' _ _ c' k' code' l' t', of U n args, unfolded n'] assms(4,5) by simp
  have ne: "next_addr h \<noteq> this"
    using assms(2) by simp
  have r1: "store (snd (new_object (Ref T) h')) (next_addr h) = \<lparr>props = [], proto = Ref T, code = None\<rparr>"
    by (simp add: store_new_object n')
  have r2: "store (snd (new_object (Ref T) h)) (next_addr h) = \<lparr>props = [], proto = Ref T, code = None\<rparr>"
    by (simp add: store_new_object)
  have r3: "\<forall>a. a \<noteq> this \<longrightarrow> store (snd (new_object (Ref T) h')) a = store (snd (new_object (Ref T) h)) a"
    by (simp add: store_new_object n' h'_def store_with_props_other)
  show ?thesis
    using first second ne r1 r2 r3 unfolding h'_def by (intro conjI)
qed

lemma instance_heap_more:
  "list_all (\<lambda>b. proto (store instance_heap b) \<noteq> Ref 13) [0..<next_addr instance_heap]
   \<and> own_prop instance_heap 13 ''constructor'' = None
   \<and> get_prop instance_heap (Ref 2) ''parent'' = Inr Undefined"
  by code_simp

lemma instance_parent_run:
  assumes "code (store h 2) = Some (User 0)" and "next_addr h = 14"
  shows "apply_fn (call example_env (Suc 0)) (Ref 2) (Ref 14) [Str ''bob''] (snd (new_object (Ref 3) h))
           = Inr (Undefined, put (put (snd (new_object (Ref 3) h)) 14 ''kind'' (Str ''source''))
                                 14 ''name'' (Str ''bob''))"
  using assms by (simp add: apply_fn_def code_new_object example_env_def)

theorem parent_noninterference_witness:
  "wf_heap instance_heap \<and> 13 < next_addr instance_heap \<and> 5 < next_addr instance_heap
   \<and> 8 < next_addr instance_heap \<and> 3 < next_addr instance_heap
   \<and> get_prop instance_heap (Ref 13) ''constructor'' = Inr (Ref 5)
   \<and> get_prop instance_heap (Ref 5) ''parent'' = Inr (Ref 8)
   \<and> code (store instance_heap 8) = Some Empty
   \<and> get_prop instance_heap (Ref 8) ''prototype'' = Inr (Ref 3)
   \<and> get_prop instance_heap (Ref 3) ''constructor'' = Inr (Ref 2)
   \<and> list_all (\<lambda>b. proto (store instance_heap b) \<noteq> Ref 13) [0..<next_addr instance_heap]
   \<and> own_prop instance_heap 13 ''early'' = Some (Bool True, True)
   \<and> own_prop instance_heap 13 ''constructor'' = None
   \<and> (\<exists>h4 h4'.
         parent (call example_env 1) 13 [Str ''bob''] instance_heap = Inr (Ref 13, h4)
       \<and> parent (call example_env 1) 13 [Str ''bob'']
            (with_props instance_heap 13 [(''early'', Bool False, True), (''vip'', Num 7, True)])
           = Inr (Ref 13, h4')
       \<and> store h4 14 = \<lparr>props = [(''kind'', Str ''source'', True), (''name'', Str ''bob'', True)],
                          proto = Ref 3, code = None\<rparr>
       \<and> store h4' 14 = store h4 14)"
proof -
  let ?ps = "[(''early'', Bool False, True), (''vip'', Num 7, True)]"
  have wf: "wf_heap instance_heap" and n: "next_addr instance_heap = 14"
    and hyps: "get_prop instance_heap (Ref 13) ''constructor'' = Inr (Ref 5)"
      "get_prop instance_heap (Ref 5) ''parent'' = Inr (Ref 8)"
      "code (store instance_heap 8) = Some Empty"
      "get_prop instance_heap (Ref 8) ''prototype'' = Inr (Ref 3)"
      "get_prop instance_heap (Ref 3) ''constructor'' = Inr (Ref 2)"
    and src: "code (store instance_heap 2) = Some (User 0)"
    and early: "own_prop instance_heap 13 ''early'' = Some (Bool True, True)"
    using instance_heap_facts by simp_all
  have nodeleg: "list_all (\<lambda>b. proto (store instance_heap b) \<noteq> Ref 13) [0..<next_addr instance_heap]"
    and noctor: "own_prop instance_heap 13 ''constructor'' = None"
    using instance_heap_more by simp_all
  have nodeleg': "\<forall>b<next_addr instance_heap. proto (store instance_heap b) \<noteq> Ref 13"
    using nodeleg by (simp add: list_all_iff)
  have lt: "13 < next_addr instance_heap" "5 < next_addr instance_heap"
    "8 < next_addr instance_heap" "3 < next_addr instance_heap"
    by (simp_all add: n)
  have ps: "list_all (\<lambda>(k, v, e). valid instance_heap v) ?ps"
    "map_of ?ps ''constructor'' = own_prop instance_heap 13 ''constructor''"
    by (simp_all add: valid_def noctor)
  note t = parent_noninterference [OF wf lt hyps nodeleg' _ _ _ ps, of example_env 0 "[Str ''bob'']",
             unfolded n]
  have t': "parent (call example_env (Suc 0)) 13 [Str ''bob''] instance_heap =
           (case apply_fn (call example_env (Suc 0)) (Ref 2) (Ref 14) [Str ''bob'']
                   (snd (new_object (Ref 3) instance_heap)) of
              Inl x \<Rightarrow> Inl x
            | Inr (r, h2) \<Rightarrow> Inr (Ref 13, put (copy_own h2 14 13) 13 ''parent'' (Ref 14)))"
    "parent (call example_env (Suc 0)) 13 [Str ''bob''] (with_props instance_heap 13 ?ps) =
           (case apply_fn (call example_env (Suc 0)) (Ref 2) (Ref 14) [Str ''bob'']
                   (snd (new_object (Ref 3) (with_props instance_heap 13 ?ps))) of
              Inl x \<Rightarrow> Inl x
            | Inr (r, h2) \<Rightarrow> Inr (Ref 13, put (copy_own h2 14 13) 13 ''parent'' (Ref 14)))"
    using t by simp_all
  define h2 where "h2 = put (put (snd (new_object (Ref 3) instance_heap)) 14 ''kind'' (Str ''source''))
                                 14 ''name'' (Str ''bob'')"
  define h2' where "h2' = put (put (snd (new_object (Ref 3) (with_props instance_heap 13 ?ps)))
                                 14 ''kind'' (Str ''source'')) 14 ''name'' (Str ''bob'')"
  have a: "parent (call example_env 1) 13 [Str ''bob''] instance_heap
             = Inr (Ref 13, put (copy_own h2 14 13) 13 ''parent'' (Ref 14))"
    using t'(1) instance_parent_run [OF src n] by (simp add: h2_def)
  have b: "parent (call example_env 1) 13 [Str ''bob''] (with_props instance_heap 13 ?ps)
             = Inr (Ref 13, put (copy_own h2' 14 13) 13 ''parent'' (Ref 14))"
    using t'(2) instance_parent_run [of "with_props instance_heap 13 ?ps"] src n
    by (simp add: h2'_def)
  have p: "store (put (copy_own h2 14 13) 13 ''parent'' (Ref 14)) 14 =
             \<lparr>props = [(''kind'', Str ''source'', True), (''name'', Str ''bob'', True)],
               proto = Ref 3, code = None\<rparr>"
    by (simp add: store_put_other store_copy_own_other h2_def put_def store_new_object n)
  have p': "store (put (copy_own h2' 14 13) 13 ''parent'' (Ref 14)) 14 =
             \<lparr>props = [(''kind'', Str ''source'', True), (''name'', Str ''bob'', True)],
               proto = Ref 3, code = None\<rparr>"
    by (simp add: store_put_other store_copy_own_other h2'_def put_def store_new_object n)
  have "\<exists>h4 h4'.
         parent (call example_env 1) 13 [Str ''bob''] instance_heap = Inr (Ref 13, h4)
       \<and> parent (call example_env 1) 13 [Str ''bob''] (with_props instance_heap 13 ?ps) = Inr (Ref 13, h4')
       \<and> store h4 14 = \<lparr>props = [(''kind'', Str ''source'', True), (''name'', Str ''bob'', True)],
                          proto = Ref 3, code = None\<rparr>
       \<and> store h4' 14 = store h4 14"
    using a b p p'
    by (intro exI [of _ "put (copy_own h2 14 13) 13 ''parent'' (Ref 14)"]
              exI [of _ "put (copy_own h2' 14 13) 13 ''parent'' (Ref 14)"] conjI) simp_all
  then show ?thesis
    by (intro conjI wf lt hyps nodeleg early noctor)
qed

text \<open>
  The claim as stated fails for a field named \<open>constructor\<close>: the parent
  initializer finds the link through \<open>this.constructor\<close>. With
  \<open>this.constructor = Source\<close> set before the call, \<open>Source.parent\<close> is
  \<open>undefined\<close>, \<open>new parent\<close> throws and the initializer of the source never
  runs; without it the initializer runs on \<open>p\<close>.
\<close>

theorem parent_constructor_field_counterexample:
  "own_prop instance_heap 13 ''constructor'' = None
   \<and> (\<exists>h4. parent (call example_env 1) 13 [Str ''bob''] instance_heap = Inr (Ref 13, h4)
          \<and> store h4 14 = \<lparr>props = [(''kind'', Str ''source'', True), (''name'', Str ''bob'', True)],
                             proto = Ref 3, code = None\<rparr>)
   \<and> parent (call example_env 1) 13 [Str ''bob''] (put instance_heap 13 ''constructor'' (Ref 2))
       = Inl (RuntimeTypeError, put instance_heap 13 ''constructor'' (Ref 2))"
proof -
  have wf: "wf_heap instance_heap" and n: "next_addr instance_heap = 14"
    and hyps: "get_prop instance_heap (Ref 13) ''constructor'' = Inr (Ref 5)"
      "get_prop instance_heap (Ref 5) ''parent'' = Inr (Ref 8)"
      "code (store instance_heap 8) = Some Empty"
      "get_prop instance_heap (Ref 8) ''prototype'' = Inr (Ref 3)"
      "get_prop instance_heap (Ref 3) ''constructor'' = Inr (Ref 2)"
    and src: "code (store instance_heap 2) = Some (User 0)"
    using instance_heap_facts by simp_all
  have noctor: "own_prop instance_heap 13 ''constructor'' = None"
    and noparent: "get_prop instance_heap (Ref 2) ''parent'' = Inr Undefined"
    using instance_heap_more by simp_all
  have lt: "8 < next_addr instance_heap" "3 < next_addr instance_heap"
    by (simp_all add: n)
  define h2 where "h2 = put (put (snd (new_object (Ref 3) instance_heap)) 14 ''kind'' (Str ''source''))
                                 14 ''name'' (Str ''bob'')"
  have a: "parent (call example_env 1) 13 [Str ''bob''] instance_heap
             = Inr (Ref 13, put (copy_own h2 14 13) 13 ''parent'' (Ref 14))"
    using parent_unfold [OF wf lt hyps, of example_env 0 "[Str ''bob'']", unfolded n]
          instance_parent_run [OF src n]
    by (simp add: h2_def)
  have p: "store (put (copy_own h2 14 13) 13 ''parent'' (Ref 14)) 14 =
             \<lparr>props = [(''kind'', Str ''source'', True), (''name'', Str ''bob'', True)],
               proto = Ref 3, code = None\<rparr>"
    by (simp add: store_put_other store_copy_own_other h2_def put_def store_new_object n)
  define hB where "hB = put instance_heap 13 ''constructor'' (Ref 2)"
  have c: "get_prop hB (Ref 13) ''constructor'' = Inr (Ref 2)"
    by (rule get_prop_own [where e = True]) (simp add: hB_def own_prop_put noctor)
  have d: "get_prop hB (Ref 2) ''parent'' = Inr Undefined"
    using noparent by (simp add: hB_def get_prop_put_other_key)
  have b: "parent (call example_env 1) 13 [Str ''bob''] hB = Inl (RuntimeTypeError, hB)"
    by (simp add: parent_def c d new_def)
  show ?thesis
    using noctor a p b unfolding hB_def by blast
qed

subsection \<open>A source whose template has no constructor of its own\<close>

lemma inherit_instance_heap_facts:
  "wf_heap inherit_instance_heap \<and> next_addr inherit_instance_heap = 15
   \<and> get_prop inherit_instance_heap (Ref 14) ''parent'' = Inr (Ref 12)
   \<and> code (store inherit_instance_heap 12) = Some Parent
   \<and> get_prop inherit_instance_heap (Ref 14) ''constructor'' = Inr (Ref 5)
   \<and> get_prop inherit_instance_heap (Ref 5) ''parent'' = Inr (Ref 9)
   \<and> code (store inherit_instance_heap 9) = Some Empty
   \<and> get_prop inherit_instance_heap (Ref 9) ''prototype'' = Inr (Ref 8)
   \<and> get_prop inherit_instance_heap (Ref 7) ''prototype'' = Inr (Ref 8)
   \<and> get_prop inherit_instance_heap (Ref 8) ''constructor'' = Inr (Ref 2)
   \<and> code (store inherit_instance_heap 2) = Some (User 0)
   \<and> code (store inherit_instance_heap 7) = Some (User 2)"
  by code_simp

lemma inherit_extend: "outcome (extend [Ref 7, Ref 4] inherit_heap) = Inr (Ref 5)"
  by code_simp

text \<open>
  The claim as stated fails when the template of the source does not point back to the
  source: after \<open>extend(Sub, spec)\<close> the parent initializer applies to \<open>p\<close>
  what \<open>p.constructor\<close> resolves to, which is \<open>Source\<close>, inherited through
  \<open>Sub.prototype\<close>. \<open>p\<close> gets \<open>kind\<close> and \<open>name\<close>; the body of
  \<open>Sub\<close>, which sets \<open>sub\<close>, has not run.
\<close>

theorem parent_runs_inherited_constructor_counterexample:
  "outcome (extend [Ref 7, Ref 4] inherit_heap) = Inr (Ref 5)
   \<and> code (store inherit_instance_heap 7) = Some (User 2)
   \<and> get_prop inherit_instance_heap (Ref 7) ''prototype'' = Inr (Ref 8)
   \<and> get_prop inherit_instance_heap (Ref 14) ''constructor'' = Inr (Ref 5)
   \<and> get_prop inherit_instance_heap (Ref 5) ''parent'' = Inr (Ref 9)
   \<and> get_prop inherit_instance_heap (Ref 9) ''prototype'' = Inr (Ref 8)
   \<and> get_prop inherit_instance_heap (Ref 8) ''constructor'' = Inr (Ref 2)
   \<and> (\<exists>h4. call example_env 2 (Ref 12) (Ref 14) [Str ''bob''] inherit_instance_heap = Inr (Ref 14, h4)
          \<and> store h4 15 = \<lparr>props = [(''kind'', Str ''source'', True), (''name'', Str ''bob'', True)],
                             proto = Ref 8, code = None\<rparr>
          \<and> own_value h4 14 ''sub'' = None)"
proof -
  have wf: "wf_heap inherit_instance_heap" and n: "next_addr inherit_instance_heap = 15"
    and pf: "code (store inherit_instance_heap 12) = Some Parent"
    and hyps: "get_prop inherit_instance_heap (Ref 14) ''constructor'' = Inr (Ref 5)"
      "get_prop inherit_instance_heap (Ref 5) ''parent'' = Inr (Ref 9)"
      "code (store inherit_instance_heap 9) = Some Empty"
      "get_prop inherit_instance_heap (Ref 9) ''prototype'' = Inr (Ref 8)"
      "get_prop inherit_instance_heap (Ref 8) ''constructor'' = Inr (Ref 2)"
    and src: "code (store inherit_instance_heap 2) = Some (User 0)"
    and sub: "code (store inherit_instance_heap 7) = Some (User 2)"
      "get_prop inherit_instance_heap (Ref 7) ''prototype'' = Inr (Ref 8)"
    using inherit_instance_heap_facts by simp_all
  have lt: "9 < next_addr inherit_instance_heap" "8 < next_addr inherit_instance_heap"
    by (simp_all add: n)
  define h1 where "h1 = snd (new_object (Ref 8) inherit_instance_heap)"
  define h2 where "h2 = put (put h1 15 ''kind'' (Str ''source'')) 15 ''name'' (Str ''bob'')"
  define h4 where "h4 = put (copy_own h2 15 14) 14 ''parent'' (Ref 15)"
  have run: "apply_fn (call example_env (Suc 0)) (Ref 2) (Ref 15) [Str ''bob''] h1 = Inr (Undefined, h2)"
    using src by (simp add: apply_fn_def code_new_object n example_env_def h1_def h2_def)
  have c: "call example_env 2 (Ref 12) (Ref 14) [Str ''bob''] inherit_instance_heap = Inr (Ref 14, h4)"
    using parent_unfold [OF wf lt hyps, of example_env 0 "[Str ''bob'']", unfolded n] run pf
    by (simp add: numeral_2_eq_2 h1_def [symmetric] h4_def)
  have p2: "store h2 15 = \<lparr>props = [(''kind'', Str ''source'', True), (''name'', Str ''bob'', True)],
                             proto = Ref 8, code = None\<rparr>"
    by (simp add: h2_def h1_def put_def store_new_object n)
  have p4: "store h4 15 = \<lparr>props = [(''kind'', Str ''source'', True), (''name'', Str ''bob'', True)],
                             proto = Ref 8, code = None\<rparr>"
    using p2 by (simp add: h4_def store_put_other store_copy_own_other)
  have keys: "''sub'' \<notin> set (own_enumerable_keys h2 15)"
    by (simp add: own_enumerable_keys_def p2)
  have "own_prop inherit_instance_heap 14 ''sub'' = None"
    by code_simp
  then have "own_value h2 14 ''sub'' = None"
    by (simp add: h2_def h1_def own_value_def own_prop_put own_prop_new_object n)
  then have nosub: "own_value h4 14 ''sub'' = None"
    using own_value_copy_own_absent [of 15 14 "''sub''" h2] keys
    by (simp add: h4_def own_value_put)
  show ?thesis
    using inherit_extend sub hyps(1,2,4,5) c p4 nosub by blast
qed

end
